theory Spec2Isabelle
  imports Complex_Main "HOL-Library.AList" "HOL-Library.Sublist" "HOL-Library.Char_ord"
    "HOL-Library.List_Lexorder" "HOL-Library.Product_Lexorder" "HOL-Library.Multiset"
begin

section \<open>Python values used by the BOM helper\<close>

text \<open>
  A Python \<open>str\<close> is modelled as a \<open>string\<close>, one \<open>char\<close> per code point, for
  code points below 256. \<open>str.isspace\<close> is exact on that range. \<open>str.upper\<close> is exact
  on ASCII; the other characters are left as they are.
  A Python \<open>dict\<close> is an association list in insertion order: \<open>map_of\<close> is the
  lookup, \<open>AList.update\<close> the assignment \<open>d[k] = v\<close> (an existing key keeps its
  position, a new key goes to the end).
\<close>

definition py_isspace :: "char \<Rightarrow> bool" where
  "py_isspace c = (let n = (of_char c :: nat) in
     (9 \<le> n \<and> n \<le> 13) \<or> (28 \<le> n \<and> n \<le> 32) \<or> n = 133 \<or> n = 160)"

definition py_strip :: "string \<Rightarrow> string" where
  "py_strip s = rev (dropWhile py_isspace (rev (dropWhile py_isspace s)))"

definition upper_char :: "char \<Rightarrow> char" where
  "upper_char c =
     (case map_of (zip ''abcdefghijklmnopqrstuvwxyz'' ''ABCDEFGHIJKLMNOPQRSTUVWXYZ'') c of
        None \<Rightarrow> c | Some u \<Rightarrow> u)"

definition py_upper :: "string \<Rightarrow> string" where
  "py_upper s = map upper_char s"

text \<open>\<open>d.get(k, default)\<close> on an optional field.\<close>

definition get_or :: "'a option \<Rightarrow> 'a \<Rightarrow> 'a" where
  "get_or field dflt = (case field of None \<Rightarrow> dflt | Some v \<Rightarrow> v)"

text \<open>
  A price as the vendor delivers it: a string such as \<open>$0.10\<close>, or a number,
  taken at its exact value.
\<close>

datatype pyval = PStr string | PInt int | PFloat rat

record price_break =
  pb_quantity :: int
  pb_price :: pyval
  pb_currency :: string

text \<open>
  A candidate part is the dict built by \<open>_normalize_results\<close>, or the N/A dict built
  by \<open>confirm_selected_part\<close>. A field is \<open>None\<close> when the dict has no such key.
\<close>

record candidate =
  mpn :: "string option"
  manufacturer :: "string option"
  mouser_part_number :: "string option"
  description :: "string option"
  package :: "string option"
  stock :: "int option"
  price_breaks :: "price_break list option"
  lifecycle :: "string option"
  product_url :: "string option"
  score :: "rat option"

section \<open>Post-search filters (mouser\_api.py)\<close>

definition obsolete_statuses :: "string list" where
  "obsolete_statuses =
     [''OBSOLETE'', ''EOL'', ''END OF LIFE'', ''NOT RECOMMENDED FOR NEW DESIGNS'',
      ''END OF LIFE (EOL)'']"

definition lifecycle_upper :: "candidate \<Rightarrow> string" where
  "lifecycle_upper p = py_upper (get_or (lifecycle p) '''')"

definition apply_filters :: "candidate list \<Rightarrow> bool \<Rightarrow> bool \<Rightarrow> candidate list" where
  "apply_filters parts in_stock_only active_only =
     (let filtered = parts;
          filtered = (if in_stock_only
                      then filter (\<lambda>p. get_or (stock p) 0 > 0) filtered
                      else filtered);
          filtered = (if active_only
                      then filter (\<lambda>p. lifecycle_upper p \<notin> set obsolete_statuses) filtered
                      else filtered)
      in filtered)"

text \<open>
  The claim's words: two strings are case-insensitively equal when they agree after
  case folding; a candidate is end-of-life when its lifecycle string is
  case-insensitively equal to one of the five listed statuses.
\<close>

definition case_insensitive_equal :: "string \<Rightarrow> string \<Rightarrow> bool" where
  "case_insensitive_equal a b = (py_upper a = py_upper b)"

definition end_of_life :: "candidate \<Rightarrow> bool" where
  "end_of_life p =
     (\<exists>t \<in> set [''OBSOLETE'', ''EOL'', ''END OF LIFE'', ''NOT RECOMMENDED FOR NEW DESIGNS'',
                ''END OF LIFE (EOL)'']. case_insensitive_equal (get_or (lifecycle p) '''') t)"

definition blank_candidate :: candidate where
  "blank_candidate =
     \<lparr>mpn = None, manufacturer = None, mouser_part_number = None, description = None,
      package = None, stock = None, price_breaks = None, lifecycle = None,
      product_url = None, score = None\<rparr>"

section \<open>Consolidation engine (bom\_parser.py)\<close>

text \<open>
  The loop of \<open>get_consolidated_parts\<close> calls three builtins whose answer depends on
  the interpreter: \<open>hash\<close>, which differs from one run to the next, and \<open>str.isdigit\<close>
  and \<open>int\<close>, whose answers depend on the character tables of the interpreter (a
  digit of any script counts as a digit, and \<open>int\<close> refuses a text of too many digits).
  They are parameters: \<open>str_hash\<close> is \<open>hash(str(\<dots>))\<close>, \<open>str_isdigit\<close> is
  \<open>str.isdigit\<close>, and \<open>str_int\<close> is \<open>int\<close> on a string, \<open>None\<close> for a
  \<open>ValueError\<close>. The theorems hold for whatever these three return.
\<close>

text \<open>A raw row: normalized column name and cell text, in column order.\<close>

type_synonym row = "(string \<times> string) list"

record builtins =
  str_hash :: "row \<Rightarrow> int"
  str_isdigit :: "string \<Rightarrow> bool"
  str_int :: "string \<Rightarrow> int option"

text \<open>
  What \<open>str.isdigit\<close> and \<open>int\<close> return on text of code points below 256, for the
  examples: a digit is an ASCII digit or one of the superscripts 1, 2, 3; \<open>int\<close> reads
  a text of ASCII digits, of at most 4300 digits (the interpreter's default limit),
  and raises for any other text that passed \<open>isdigit\<close>.
\<close>

definition isdigit_char :: "char \<Rightarrow> bool" where
  "isdigit_char c = (let n = (of_char c :: nat) in
     (48 \<le> n \<and> n \<le> 57) \<or> n = 178 \<or> n = 179 \<or> n = 185)"

definition py_isdigit :: "string \<Rightarrow> bool" where
  "py_isdigit s = (s \<noteq> [] \<and> list_all isdigit_char s)"

definition ascii_digit :: "char \<Rightarrow> bool" where
  "ascii_digit c = (let n = (of_char c :: nat) in 48 \<le> n \<and> n \<le> 57)"

definition digits_value :: "string \<Rightarrow> int" where
  "digits_value s = foldl (\<lambda>n c. 10 * n + (int (of_char c) - 48)) 0 s"

definition py_int :: "string \<Rightarrow> int option" where
  "py_int s = (if s \<noteq> [] \<and> list_all ascii_digit s \<and> length s \<le> 4300
               then Some (digits_value s) else None)"

definition no_hash :: "row \<Rightarrow> int" where
  "no_hash component = 0"

definition example_builtins :: builtins where
  "example_builtins = \<lparr>str_hash = no_hash, str_isdigit = py_isdigit, str_int = py_int\<rparr>"

text \<open>\<open>str(n)\<close> for an integer.\<close>

fun str_nat :: "nat \<Rightarrow> string" where
  "str_nat n = (if n < 10 then [''0123456789'' ! n]
                else str_nat (n div 10) @ [''0123456789'' ! (n mod 10)])"

declare str_nat.simps [simp del]

definition py_str_int :: "int \<Rightarrow> string" where
  "py_str_int i = (if i < 0 then CHR ''-'' # str_nat (nat (- i)) else str_nat (nat i))"

fun py_join :: "string \<Rightarrow> string list \<Rightarrow> string" where
  "py_join sep [] = []"
| "py_join sep [x] = x"
| "py_join sep (x # y # ys) = x @ sep @ py_join sep (y # ys)"

text \<open>
  A consolidated part: the dict built in \<open>get_consolidated_parts\<close>. The fixed keys
  are fields; the columns copied from the first row of the group are \<open>part_extra\<close>;
  \<open>refdes\<close> is set when the dict is turned into the result list.
\<close>

record part =
  refdes_list :: "string list"
  part_mpn :: string
  part_value :: string
  part_package :: string
  voltage :: string
  tolerance :: string
  power :: string
  part_description :: string
  quantity :: int
  part_extra :: "(string \<times> string) list"
  refdes :: "string option"

text \<open>The grouping key.\<close>

definition group_key :: "builtins \<Rightarrow> row \<Rightarrow> string" where
  "group_key py component =
     (let mpn = py_strip (get_or (map_of component ''mpn'') '''');
          value = py_strip (get_or (map_of component ''value'') '''');
          package = py_strip (get_or (map_of component ''package'') '''')
      in if mpn \<noteq> '''' then ''mpn:'' @ mpn
         else if value \<noteq> '''' \<and> package \<noteq> '''' then ''value:'' @ value @ ''|package:'' @ package
         else if value \<noteq> '''' then ''value:'' @ value
         else py_str_int (str_hash py (sort component)))"

definition fixed_keys :: "string list" where
  "fixed_keys = [''refdes_list'', ''mpn'', ''value'', ''package'', ''voltage'', ''tolerance'',
                 ''power'', ''description'', ''quantity'']"

definition copy_columns :: "row \<Rightarrow> (string \<times> string) list" where
  "copy_columns component =
     fold (\<lambda>(k, v) extra.
             if k \<notin> set fixed_keys \<and> map_of extra k = None \<and> k \<notin> set [''refdes'']
             then AList.update k v extra else extra) component []"

definition new_part :: "row \<Rightarrow> part" where
  "new_part component =
     \<lparr>refdes_list = [],
      part_mpn = py_strip (get_or (map_of component ''mpn'') ''''),
      part_value = py_strip (get_or (map_of component ''value'') ''''),
      part_package = py_strip (get_or (map_of component ''package'') ''''),
      voltage = get_or (map_of component ''voltage'') '''',
      tolerance = get_or (map_of component ''tolerance'') '''',
      power = get_or (map_of component ''power'') '''',
      part_description = get_or (map_of component ''description'') '''',
      quantity = 0,
      part_extra = copy_columns component,
      refdes = None\<rparr>"

definition add_refdes :: "row \<Rightarrow> part \<Rightarrow> part" where
  "add_refdes component p =
     (let rd = py_strip (get_or (map_of component ''refdes'') '''')
      in if rd \<noteq> '''' then
           (if rd \<notin> set (refdes_list p) then p\<lparr>refdes_list := refdes_list p @ [rd]\<rparr> else p)
         else p)"

text \<open>
  The quantity added for one row: \<open>qty = comp.get('quantity', 0)\<close>, then
  \<open>int(qty) if qty.isdigit() else 0\<close> for a string, then \<open>qty if qty else 1\<close>.
  \<open>qty\<close> is \<open>None\<close> when \<open>int\<close> raises, which the bare \<open>except\<close> turns into 1.
\<close>

definition row_increment :: "builtins \<Rightarrow> row \<Rightarrow> int" where
  "row_increment py component =
     (let qty = (case map_of component ''quantity'' of
                   None \<Rightarrow> Some 0
                 | Some s \<Rightarrow> if str_isdigit py s then str_int py s else Some 0)
      in case qty of
           Some q \<Rightarrow> if q \<noteq> 0 then q else 1
         | None \<Rightarrow> 1)"

definition add_quantity :: "builtins \<Rightarrow> row \<Rightarrow> part \<Rightarrow> part" where
  "add_quantity py component p = p\<lparr>quantity := quantity p + row_increment py component\<rparr>"

definition add_row :: "builtins \<Rightarrow> row \<Rightarrow> (string \<times> part) list \<Rightarrow> (string \<times> part) list" where
  "add_row py component parts_dict =
     (let key = group_key py component;
          p = (case map_of parts_dict key of None \<Rightarrow> new_part component | Some p \<Rightarrow> p)
      in AList.update key (add_quantity py component (add_refdes component p)) parts_dict)"

definition parts_dict_of :: "builtins \<Rightarrow> row list \<Rightarrow> (string \<times> part) list" where
  "parts_dict_of py components = fold (add_row py) components []"

definition format_refdes :: "part \<Rightarrow> part" where
  "format_refdes p = p\<lparr>refdes := Some (py_join '', '' (refdes_list p))\<rparr>"

definition get_consolidated_parts :: "builtins \<Rightarrow> row list \<Rightarrow> part list" where
  "get_consolidated_parts py components =
     map (\<lambda>(key, p). format_refdes p) (parts_dict_of py components)"

text \<open>
  Words of the claims about consolidation: the distinct elements of a list in order
  of first occurrence; the text of a raw row's field (empty when the column is
  missing); a row as the parser delivers it, every cell stripped.
\<close>

primrec first_seen :: "'a list \<Rightarrow> 'a list" where
  "first_seen [] = []"
| "first_seen (x # xs) = x # removeAll x (first_seen xs)"

definition row_field :: "row \<Rightarrow> string \<Rightarrow> string" where
  "row_field r k = get_or (map_of r k) ''''"

definition stripped_row :: "row \<Rightarrow> bool" where
  "stripped_row r = list_all (\<lambda>(k, v). py_strip v = v) r"

text \<open>
  The quantity a row counts for, as the claim states it: the quantity field parsed as
  an integer by \<open>int\<close>, 1 when it is missing or does not parse.
\<close>

definition claimed_row_quantity :: "builtins \<Rightarrow> row \<Rightarrow> int" where
  "claimed_row_quantity py r =
     (case map_of r ''quantity'' of
        None \<Rightarrow> 1
      | Some s \<Rightarrow> (case str_int py s of None \<Rightarrow> 1 | Some n \<Rightarrow> n))"

text \<open>
  The quantity a row counts for in the code: the integer that \<open>int\<close> reads from the
  quantity field, when the field passes \<open>str.isdigit\<close>, \<open>int\<close> does not raise and the
  integer is not zero; and 1 in every other case.
\<close>

definition counted_row_quantity :: "builtins \<Rightarrow> row \<Rightarrow> int" where
  "counted_row_quantity py r =
     (case map_of r ''quantity'' of
        None \<Rightarrow> 1
      | Some s \<Rightarrow>
          (case (if str_isdigit py s then str_int py s else None) of
             None \<Rightarrow> 1
           | Some n \<Rightarrow> if n = 0 then 1 else n))"

text \<open>Helpers for the proofs: the loop body on one part, run over the rows of a group.\<close>

definition absorb :: "builtins \<Rightarrow> row list \<Rightarrow> part \<Rightarrow> part" where
  "absorb py g p = fold (\<lambda>r p. add_quantity py r (add_refdes r p)) g p"

definition stripped_refdes :: "row \<Rightarrow> string" where
  "stripped_refdes r = py_strip (get_or (map_of r ''refdes'') '''')"

definition stripped_mpn :: "row \<Rightarrow> string" where
  "stripped_mpn r = py_strip (get_or (map_of r ''mpn'') '''')"

section \<open>Row loops of the parser (bom\_parser.py)\<close>

text \<open>
  The data-row loops of \<open>parse_csv\<close> and \<open>parse_excel\<close>. The normalized headers
  and the rows read from the file are the inputs. A CSV cell is a string. An Excel
  cell value is \<open>None\<close>, a string, or another value (number, boolean, date), which
  is given by its truth value and its \<open>str()\<close> text.
\<close>

datatype xl_value = XNone | XStr string | XOther bool string

definition truthy :: "xl_value \<Rightarrow> bool" where
  "truthy v = (case v of XNone \<Rightarrow> False | XStr s \<Rightarrow> s \<noteq> '''' | XOther b t \<Rightarrow> b)"

definition csv_text :: "string \<Rightarrow> string" where
  "csv_text v = py_strip v"

definition xl_text :: "xl_value \<Rightarrow> string" where
  "xl_text v = (case v of XNone \<Rightarrow> '''' | XStr s \<Rightarrow> py_strip s | XOther b t \<Rightarrow> py_strip t)"

definition make_component :: "('c \<Rightarrow> string) \<Rightarrow> string list \<Rightarrow> 'c list \<Rightarrow> row" where
  "make_component cell_text headers cells =
     fold (\<lambda>(col_idx, header) component.
             if col_idx < length cells
             then AList.update header (cell_text (cells ! col_idx)) component
             else component)
          (enumerate 0 headers) []"

definition has_data :: "row \<Rightarrow> bool" where
  "has_data component = (component \<noteq> [] \<and> list_ex (\<lambda>v. v \<noteq> '''') (map snd component))"

fun parse_csv_rows :: "string list \<Rightarrow> string list list \<Rightarrow> row list" where
  "parse_csv_rows headers [] = []"
| "parse_csv_rows headers (cells # rest) =
     (if \<not> list_ex (\<lambda>c. c \<noteq> '''') cells then parse_csv_rows headers rest
      else let component = make_component csv_text headers cells
           in if has_data component then component # parse_csv_rows headers rest
              else parse_csv_rows headers rest)"

fun parse_excel_rows :: "string list \<Rightarrow> xl_value list list \<Rightarrow> row list" where
  "parse_excel_rows headers [] = []"
| "parse_excel_rows headers (cells # rest) =
     (if \<not> list_ex truthy cells then parse_excel_rows headers rest
      else let component = make_component xl_text headers cells
           in if has_data component then component # parse_excel_rows headers rest
              else parse_excel_rows headers rest)"

section \<open>Session, confirmation and export (bom\_mouser\_lookup.py)\<close>

text \<open>
  The application state of \<open>BOMMouserLookupApp\<close> that the claims read: the data
  fields set in \<open>__init__\<close>, with the three Tk variables for the search options as
  plain values. Widgets, message boxes and the status line are not part of the model.
\<close>

record session =
  components :: "row list"
  consolidated_parts :: "part list"
  column_mapping :: "(string \<times> string) list"
  selected_parts :: "(string \<times> candidate) list"
  current_search_results :: "(string \<times> candidate list) list"
  part_selected :: "(string \<times> bool) list"
  current_batch_index :: int
  batch_part_keys :: "string list"
  sort_preference :: string
  part_key_to_index :: "(string \<times> nat) list"
  in_stock_var :: bool
  active_only_var :: bool

definition init_session :: session where
  "init_session =
     \<lparr>components = [], consolidated_parts = [], column_mapping = [], selected_parts = [],
      current_search_results = [], part_selected = [], current_batch_index = 0,
      batch_part_keys = [], sort_preference = ''stock'', part_key_to_index = [],
      in_stock_var = True, active_only_var = True\<rparr>"

definition generate_part_key :: "nat \<Rightarrow> string" where
  "generate_part_key index = ''part_'' @ str_nat index"

definition get_part_by_key :: "session \<Rightarrow> string \<Rightarrow> part option" where
  "get_part_by_key s part_key =
     (case map_of (part_key_to_index s) part_key of
        None \<Rightarrow> None
      | Some index \<Rightarrow> if index < length (consolidated_parts s)
                      then Some (consolidated_parts s ! index) else None)"

text \<open>
  \<open>open_bom\<close> after the file is parsed: the state it sets. The checkbox flags of an
  earlier BOM are kept; only missing keys are initialised.
\<close>

definition init_checkboxes :: "nat \<Rightarrow> (string \<times> bool) list \<Rightarrow> (string \<times> bool) list" where
  "init_checkboxes n flags =
     fold (\<lambda>idx flags. let part_key = generate_part_key idx
                        in if map_of flags part_key = None
                           then AList.update part_key False flags else flags)
          [0..<n] flags"

definition build_index :: "nat \<Rightarrow> (string \<times> nat) list" where
  "build_index n = fold (\<lambda>idx m. AList.update (generate_part_key idx) idx m) [0..<n] []"

definition open_bom ::
  "builtins \<Rightarrow> row list \<Rightarrow> (string \<times> string) list \<Rightarrow> session \<Rightarrow> session" where
  "open_bom py rows mapping s =
     (let parts = get_consolidated_parts py rows
      in s\<lparr>components := rows, column_mapping := mapping, consolidated_parts := parts,
           selected_parts := [], current_search_results := [],
           part_selected := init_checkboxes (length parts) (part_selected s),
           part_key_to_index := build_index (length parts)\<rparr>)"

text \<open>The checkbox column of \<open>on_cell_click\<close>.\<close>

definition toggle_checkbox :: "session \<Rightarrow> string \<Rightarrow> session" where
  "toggle_checkbox s part_key =
     (let current_state = get_or (map_of (part_selected s) part_key) False
      in s\<lparr>part_selected := AList.update part_key (\<not> current_state) (part_selected s)\<rparr>)"

definition confirm_part_selection :: "session \<Rightarrow> string \<Rightarrow> candidate \<Rightarrow> session" where
  "confirm_part_selection s part_key mouser_part =
     s\<lparr>selected_parts := AList.update part_key mouser_part (selected_parts s),
       part_selected := AList.update part_key True (part_selected s)\<rparr>"

definition na_part :: candidate where
  "na_part =
     \<lparr>mpn = Some ''NA'', manufacturer = Some ''N/A'', mouser_part_number = Some ''NA'',
      description = Some ''N/A - No part selected'', package = None, stock = None,
      price_breaks = None, lifecycle = None, product_url = None, score = None\<rparr>"

text \<open>
  \<open>confirm_selected_part\<close>. \<open>table_selection\<close> is the part key of the selected table
  row, \<open>radio\<close> the radio variable of the part (\<open>None\<close> when the part has none). The
  radio variable holds the empty string, \<open>NA\<close> or \<open>str(i)\<close> for a result index;
  \<open>py_int\<close> is \<open>int()\<close> on such text. The result is \<open>None\<close> where the code shows a
  warning and returns without a change.
\<close>

definition in_batch_mode :: "session \<Rightarrow> bool" where
  "in_batch_mode s =
     (batch_part_keys s \<noteq> [] \<and> current_batch_index s < int (length (batch_part_keys s)))"

definition py_index :: "'a list \<Rightarrow> int \<Rightarrow> 'a option" where
  "py_index xs i =
     (if 0 \<le> i \<and> i < int (length xs) then Some (xs ! nat i)
      else if i < 0 \<and> - i \<le> int (length xs) then Some (xs ! nat (int (length xs) + i))
      else None)"

definition current_part_key :: "session \<Rightarrow> string option \<Rightarrow> string option" where
  "current_part_key s table_selection =
     (if in_batch_mode s then py_index (batch_part_keys s) (current_batch_index s)
      else (case table_selection of
              None \<Rightarrow> None
            | Some part_key \<Rightarrow> if part_key = '''' then None else Some part_key))"

definition selected_candidate :: "session \<Rightarrow> string \<Rightarrow> string \<Rightarrow> candidate option" where
  "selected_candidate s part_key selected_value =
     (if selected_value = ''NA'' then Some na_part
      else (case py_int selected_value of
              None \<Rightarrow> None
            | Some part_index \<Rightarrow>
                (let all_results = get_or (map_of (current_search_results s) part_key) []
                 in if part_index < int (length all_results) then py_index all_results part_index
                    else None)))"

definition confirm_and_advance :: "session \<Rightarrow> session" where
  "confirm_and_advance s =
     (if current_batch_index s < int (length (batch_part_keys s)) - 1
      then s\<lparr>current_batch_index := current_batch_index s + 1\<rparr> else s)"

definition confirm_selected_part :: "session \<Rightarrow> string option \<Rightarrow> string option \<Rightarrow> session option" where
  "confirm_selected_part s table_selection radio =
     (case current_part_key s table_selection of
        None \<Rightarrow> None
      | Some part_key \<Rightarrow>
          (case radio of
             None \<Rightarrow> None
           | Some selected_value \<Rightarrow>
               if selected_value = '''' then None
               else (case selected_candidate s part_key selected_value of
                       None \<Rightarrow> None
                     | Some mouser_part \<Rightarrow>
                         (let s1 = confirm_part_selection s part_key mouser_part
                          in Some (if batch_part_keys s1 \<noteq> [] \<and>
                                      current_batch_index s1 < int (length (batch_part_keys s1)) - 1
                                   then confirm_and_advance s1 else s1)))))"

text \<open>
  One export record. \<open>Quantity\<close>, \<open>Stock\<close> and \<open>Price\<close> hold a number or a string,
  the other columns a string.
\<close>

record export_row =
  REFDES :: string
  Quantity :: pyval
  Description :: string
  Package :: string
  MPN :: string
  Mouser_Part_Number :: string
  Manufacturer :: string
  Value :: string
  Voltage :: string
  Stock :: pyval
  Price :: pyval
  Lifecycle :: string
  Product_URL :: string

definition build_row :: "session \<Rightarrow> string \<Rightarrow> candidate \<Rightarrow> export_row" where
  "build_row s part_key mouser_part =
     (let original_part = get_part_by_key s part_key;
          mouser_package = (case package mouser_part of
                              None \<Rightarrow> ''''
                            | Some raw \<Rightarrow> if raw \<noteq> '''' then py_strip raw else '''')
      in \<lparr>REFDES = (case original_part of None \<Rightarrow> '''' | Some p \<Rightarrow> get_or (refdes p) ''''),
          Quantity = (case original_part of None \<Rightarrow> PStr '''' | Some p \<Rightarrow> PInt (quantity p)),
          Description = get_or (description mouser_part)
                          (case original_part of None \<Rightarrow> '''' | Some p \<Rightarrow> part_description p),
          Package = mouser_package,
          MPN = get_or (mpn mouser_part) '''',
          Mouser_Part_Number = get_or (mouser_part_number mouser_part) '''',
          Manufacturer = get_or (manufacturer mouser_part) '''',
          Value = (case original_part of None \<Rightarrow> '''' | Some p \<Rightarrow> part_value p),
          Voltage = (case original_part of None \<Rightarrow> '''' | Some p \<Rightarrow> voltage p),
          Stock = PInt (get_or (stock mouser_part) 0),
          Price = (case price_breaks mouser_part of
                     None \<Rightarrow> PStr ''''
                   | Some [] \<Rightarrow> PStr ''''
                   | Some (first_pb # rest) \<Rightarrow> pb_price first_pb),
          Lifecycle = get_or (lifecycle mouser_part) '''',
          Product_URL = get_or (product_url mouser_part) ''''\<rparr>)"

definition checked_parts :: "session \<Rightarrow> (string \<times> candidate) list" where
  "checked_parts s =
     filter (\<lambda>(k, v). get_or (map_of (part_selected s) k) False) (selected_parts s)"

definition get_export_data :: "session \<Rightarrow> export_row list" where
  "get_export_data s =
     (if checked_parts s = [] then []
      else map (\<lambda>(part_key, mouser_part). build_row s part_key mouser_part) (checked_parts s))"

text \<open>A run of confirmations, one after the other.\<close>

definition confirm_all :: "session \<Rightarrow> (string \<times> candidate) list \<Rightarrow> session" where
  "confirm_all s choices =
     fold (\<lambda>(part_key, mouser_part) s. confirm_part_selection s part_key mouser_part)
          choices s"

definition refdes_text :: "part \<Rightarrow> string" where
  "refdes_text p = get_or (refdes p) ''''"

definition two_rows :: "row list" where
  "two_rows = [[(''mpn'', ''A1''), (''refdes'', ''R1'')], [(''mpn'', ''B2''), (''refdes'', ''C1'')]]"

section \<open>State snapshot (bom\_mouser\_lookup.py)\<close>

text \<open>
  The snapshot: the \<open>state_data\<close> document that \<open>save_bom_state\<close> hands to
  \<open>json.dump\<close> and \<open>load_bom_state\<close> gets back from \<open>json.load\<close>. The values in it
  are strings, integers, booleans, lists and dicts with string keys, which JSON
  returns as written; the file itself is not modelled. A field is \<open>None\<close> when the
  document has no such key. \<open>now\<close> is the clock reading for \<open>save_date\<close>.
\<close>

record state_data =
  sd_version :: "string option"
  sd_save_date :: "string option"
  sd_consolidated_parts :: "part list option"
  sd_column_mapping :: "(string \<times> string) list option"
  sd_components :: "row list option"
  sd_selected_parts :: "(string \<times> candidate) list option"
  sd_part_selected :: "(string \<times> bool) list option"
  sd_in_stock_only :: "bool option"
  sd_active_only :: "bool option"
  sd_sort_preference :: "string option"
  sd_current_search_results :: "(string \<times> candidate list) list option"
  sd_batch_part_keys :: "string list option"
  sd_current_batch_index :: "int option"

text \<open>\<open>None\<close>: the warning "No BOM data to save", nothing is written.\<close>

definition save_bom_state :: "string \<Rightarrow> session \<Rightarrow> state_data option" where
  "save_bom_state now s =
     (if consolidated_parts s = [] then None
      else Some
        \<lparr>sd_version = Some ''1.0'',
         sd_save_date = Some now,
         sd_consolidated_parts = Some (consolidated_parts s),
         sd_column_mapping = Some (column_mapping s),
         sd_components = Some (components s),
         sd_selected_parts = Some (selected_parts s),
         sd_part_selected = Some (part_selected s),
         sd_in_stock_only = Some (in_stock_var s),
         sd_active_only = Some (active_only_var s),
         sd_sort_preference = Some (sort_preference s),
         sd_current_search_results = Some (current_search_results s),
         sd_batch_part_keys = Some (batch_part_keys s),
         sd_current_batch_index = Some (current_batch_index s)\<rparr>)"

definition populate_parts_table :: "session \<Rightarrow> session" where
  "populate_parts_table s =
     (if consolidated_parts s = [] then s
      else s\<lparr>part_selected := init_checkboxes (length (consolidated_parts s)) (part_selected s),
             part_key_to_index := build_index (length (consolidated_parts s))\<rparr>)"

text \<open>
  \<open>None\<close>: the error "File does not contain BOM parts data"; the session is as it
  was. Each later key is restored only when the document has it.
\<close>

definition load_bom_state :: "state_data \<Rightarrow> session \<Rightarrow> session option" where
  "load_bom_state sd s =
     (case sd_consolidated_parts sd of
        None \<Rightarrow> None
      | Some parts \<Rightarrow>
          (let s = s\<lparr>consolidated_parts := parts\<rparr>;
               s = (case sd_column_mapping sd of None \<Rightarrow> s | Some m \<Rightarrow> s\<lparr>column_mapping := m\<rparr>);
               s = (case sd_components sd of None \<Rightarrow> s | Some c \<Rightarrow> s\<lparr>components := c\<rparr>);
               s = s\<lparr>part_key_to_index := build_index (length (consolidated_parts s))\<rparr>;
               s = populate_parts_table s;
               s = (case sd_part_selected sd of None \<Rightarrow> s | Some f \<Rightarrow> s\<lparr>part_selected := f\<rparr>);
               s = (case sd_selected_parts sd of None \<Rightarrow> s | Some c \<Rightarrow> s\<lparr>selected_parts := c\<rparr>);
               s = (case sd_in_stock_only sd of None \<Rightarrow> s | Some b \<Rightarrow> s\<lparr>in_stock_var := b\<rparr>);
               s = (case sd_active_only sd of None \<Rightarrow> s | Some b \<Rightarrow> s\<lparr>active_only_var := b\<rparr>);
               s = (case sd_sort_preference sd of None \<Rightarrow> s | Some p \<Rightarrow> s\<lparr>sort_preference := p\<rparr>);
               s = (case sd_current_search_results sd of
                      None \<Rightarrow> s | Some r \<Rightarrow> s\<lparr>current_search_results := r\<rparr>);
               s = (case sd_batch_part_keys sd of None \<Rightarrow> s | Some k \<Rightarrow> s\<lparr>batch_part_keys := k\<rparr>);
               s = (case sd_current_batch_index sd of
                      None \<Rightarrow> s | Some i \<Rightarrow> s\<lparr>current_batch_index := i\<rparr>)
           in Some s))"

section \<open>Floats and errors\<close>

text \<open>
  A Python \<open>float\<close> that is not NaN, at its exact value: every finite double is a
  rational number, and prices are only compared, never added. The order is the
  order of \<open>float\<close>. \<open>float()\<close> on a string is a parameter \<open>to_float\<close> of the
  functions below, \<open>None\<close> for a \<open>ValueError\<close>; a string that \<open>float()\<close> reads as NaN
  is outside the model, since comparisons with NaN do not order the candidates.
\<close>

datatype pyfloat = NegInf | Fin rat | PosInf

definition float_rank :: "pyfloat \<Rightarrow> nat \<times> rat" where
  "float_rank x = (case x of NegInf \<Rightarrow> (0, 0) | Fin r \<Rightarrow> (1, r) | PosInf \<Rightarrow> (2, 0))"

instantiation pyfloat :: linorder
begin
definition less_eq_pyfloat :: "pyfloat \<Rightarrow> pyfloat \<Rightarrow> bool" where
  "less_eq_pyfloat x y = (float_rank x \<le> float_rank y)"
definition less_pyfloat :: "pyfloat \<Rightarrow> pyfloat \<Rightarrow> bool" where
  "less_pyfloat x y = (float_rank x < float_rank y)"
instance
proof
  fix x y z :: pyfloat
  show "x < y \<longleftrightarrow> x \<le> y \<and> \<not> y \<le> x"
    by (auto simp add: less_eq_pyfloat_def less_pyfloat_def)
  show "x \<le> x"
    by (simp add: less_eq_pyfloat_def)
  show "x \<le> y \<Longrightarrow> y \<le> z \<Longrightarrow> x \<le> z"
    by (simp add: less_eq_pyfloat_def)
  show "x \<le> y \<Longrightarrow> y \<le> x \<Longrightarrow> x = y"
    by (cases x; cases y) (auto simp add: less_eq_pyfloat_def float_rank_def)
  show "x \<le> y \<or> y \<le> x"
    by (auto simp add: less_eq_pyfloat_def)
qed
end

datatype py_error = IndexError

section \<open>Ranking engine (part\_ranker.py)\<close>

text \<open>
  Scores and weights are doubles in the code; the model computes with their decimal
  values. Every sub-score is a multiple of 10 between 0 and 100 and the weights used
  are multiples of 0.1 that sum to 1, so the exact total is a whole number, the total
  computed in doubles is off by far less than a thousandth, and \<open>round(total, 2)\<close> is
  that whole number in both.
\<close>

record ranking_engine =
  stock_weight :: rat
  price_weight :: rat
  lifecycle_weight :: rat
  package_match_weight :: rat

definition init_ranking_engine :: "rat \<Rightarrow> rat \<Rightarrow> rat \<Rightarrow> rat \<Rightarrow> ranking_engine" where
  "init_ranking_engine sw pw lw kw =
     (let total = sw + pw + lw + kw
      in if total > 0
         then \<lparr>stock_weight = sw / total, price_weight = pw / total,
               lifecycle_weight = lw / total, package_match_weight = kw / total\<rparr>
         else \<lparr>stock_weight = sw, price_weight = pw,
               lifecycle_weight = lw, package_match_weight = kw\<rparr>)"

definition py_replace_char :: "char \<Rightarrow> string \<Rightarrow> string" where
  "py_replace_char c s = filter (\<lambda>x. x \<noteq> c) s"

definition normalize_package :: "string \<Rightarrow> string" where
  "normalize_package pkg =
     (if pkg = '''' then ''''
      else py_replace_char (CHR ''_'') (py_replace_char (CHR ''-'')
             (py_replace_char (CHR '' '') (py_strip (py_upper pkg)))))"

definition packages_match :: "string \<Rightarrow> string \<Rightarrow> bool" where
  "packages_match package1 package2 =
     (if package1 = '''' \<or> package2 = '''' then False
      else let norm1 = normalize_package package1; norm2 = normalize_package package2
           in if norm1 = norm2 then True
              else if sublist norm1 norm2 \<or> sublist norm2 norm1 then True
              else False)"

definition score_stock :: "candidate \<Rightarrow> rat" where
  "score_stock p =
     (let stock = get_or (stock p) 0
      in if stock \<le> 0 then 0
         else if stock \<ge> 10000 then 100
         else if stock \<ge> 1000 then 80
         else if stock \<ge> 100 then 60
         else if stock \<ge> 10 then 40
         else 20)"

definition clean_price :: "string \<Rightarrow> string" where
  "clean_price s = py_strip (py_replace_char (CHR '','') (py_replace_char (CHR ''$'') s))"

text \<open>The price of one break in \<open>score_price\<close>: a number has no \<open>replace\<close>, which
  raises \<open>AttributeError\<close> and skips the break.\<close>

definition score_price_of :: "(string \<Rightarrow> pyfloat option) \<Rightarrow> price_break \<Rightarrow> pyfloat option" where
  "score_price_of to_float pb =
     (case pb_price pb of PStr s \<Rightarrow> to_float (clean_price s) | PInt i \<Rightarrow> None | PFloat r \<Rightarrow> None)"

definition min_price_of :: "(string \<Rightarrow> pyfloat option) \<Rightarrow> price_break list \<Rightarrow> pyfloat option" where
  "min_price_of to_float pbs =
     fold (\<lambda>pb min_price.
             case score_price_of to_float pb of
               None \<Rightarrow> min_price
             | Some price \<Rightarrow>
                 (case min_price of
                    None \<Rightarrow> Some price
                  | Some m \<Rightarrow> if price < m then Some price else Some m))
          pbs None"

text \<open>The literals \<open>0.01\<close> and \<open>0.10\<close> are the nearest doubles.\<close>

definition score_price :: "(string \<Rightarrow> pyfloat option) \<Rightarrow> candidate \<Rightarrow> rat" where
  "score_price to_float p =
     (let pbs = get_or (price_breaks p) []
      in if pbs = [] then 50
         else case min_price_of to_float pbs of
                None \<Rightarrow> 50
              | Some min_price \<Rightarrow>
                  if min_price \<le> Fin (5764607523034235 / 576460752303423488) then 100
                  else if min_price \<le> Fin (3602879701896397 / 36028797018963968) then 90
                  else if min_price \<le> Fin 1 then 70
                  else if min_price \<le> Fin 10 then 50
                  else if min_price \<le> Fin 50 then 30
                  else 10)"

definition score_lifecycle :: "candidate \<Rightarrow> rat" where
  "score_lifecycle p =
     (let lifecycle = py_upper (get_or (lifecycle p) '''')
      in if lifecycle = '''' then 50
         else if lifecycle \<in> set [''ACTIVE'', ''LIFEBUY'', ''NEW''] then 100
         else if lifecycle \<in> set [''LAST TIME BUY'', ''NOT RECOMMENDED FOR NEW DESIGNS''] then 30
         else if lifecycle \<in> set [''OBSOLETE'', ''EOL'', ''END OF LIFE''] then 0
         else 50)"

definition score_package_match :: "candidate \<Rightarrow> string option \<Rightarrow> rat" where
  "score_package_match p target_package =
     (if target_package = None \<or> target_package = Some '''' then 50
      else let part_package = get_or (package p) ''''
           in if part_package = '''' then 0
              else if packages_match part_package (the target_package) then 100
              else 0)"

text \<open>\<open>round(x, 2)\<close>: to the nearest hundredth, a tie to the even one.\<close>

definition round_half_even :: "rat \<Rightarrow> int" where
  "round_half_even x =
     (let f = \<lfloor>x\<rfloor>; d = x - of_int f
      in if d < 1 / 2 then f else if d > 1 / 2 then f + 1 else if even f then f else f + 1)"

definition py_round2 :: "rat \<Rightarrow> rat" where
  "py_round2 x = of_int (round_half_even (x * 100)) / 100"

text \<open>
  \<open>calculate_score\<close>. The debug message is an f-string, built before \<open>logger.debug\<close>
  is called, and it reads \<open>part.get('price_breaks', [{}])[0]\<close>: a candidate whose
  \<open>price_breaks\<close> is the empty list raises \<open>IndexError\<close> there.
\<close>

definition calculate_score ::
  "(string \<Rightarrow> pyfloat option) \<Rightarrow> ranking_engine \<Rightarrow> candidate \<Rightarrow> string option \<Rightarrow> py_error + rat" where
  "calculate_score to_float ranker p target_package =
     (let stock_score = score_stock p;
          price_score = score_price to_float p;
          lifecycle_score = score_lifecycle p;
          package_score = score_package_match p target_package;
          total_score = stock_weight ranker * stock_score + price_weight ranker * price_score +
                        lifecycle_weight ranker * lifecycle_score +
                        package_match_weight ranker * package_score
      in if price_breaks p = Some [] then Inl IndexError
         else Inr (py_round2 total_score))"

text \<open>The loop \<open>for part in parts: part['score'] = \<dots>\<close>; it stops at the first error.\<close>

fun score_parts ::
  "(string \<Rightarrow> pyfloat option) \<Rightarrow> ranking_engine \<Rightarrow> string option \<Rightarrow> candidate list \<Rightarrow>
     py_error + candidate list" where
  "score_parts to_float ranker target_package [] = Inr []"
| "score_parts to_float ranker target_package (p # ps) =
     (case calculate_score to_float ranker p target_package of
        Inl e \<Rightarrow> Inl e
      | Inr sc \<Rightarrow>
          (case score_parts to_float ranker target_package ps of
             Inl e \<Rightarrow> Inl e
           | Inr scored \<Rightarrow> Inr (p\<lparr>score := Some sc\<rparr> # scored)))"

text \<open>\<open>sorted(\<dots>, reverse=True)\<close> is stable: equal keys keep their input order.\<close>

definition sorted_reverse :: "('a \<Rightarrow> 'k::linorder) \<Rightarrow> 'a list \<Rightarrow> 'a list" where
  "sorted_reverse key xs = rev (sort_key key (rev xs))"

definition rank_parts ::
  "(string \<Rightarrow> pyfloat option) \<Rightarrow> ranking_engine \<Rightarrow> candidate list \<Rightarrow> string option \<Rightarrow>
     py_error + candidate list" where
  "rank_parts to_float ranker parts target_package =
     (case score_parts to_float ranker target_package parts of
        Inl e \<Rightarrow> Inl e
      | Inr scored \<Rightarrow>
          Inr (sorted_reverse (\<lambda>p. (get_or (score p) 0, get_or (stock p) 0)) scored))"

section \<open>Ranking with a sort preference (bom\_mouser\_lookup.py)\<close>

definition pyval_truthy :: "pyval \<Rightarrow> bool" where
  "pyval_truthy v = (case v of PStr s \<Rightarrow> s \<noteq> '''' | PInt i \<Rightarrow> i \<noteq> 0 | PFloat r \<Rightarrow> r \<noteq> 0)"

definition price_float :: "(string \<Rightarrow> pyfloat option) \<Rightarrow> pyval \<Rightarrow> pyfloat option" where
  "price_float to_float price =
     (case price of
        PStr s \<Rightarrow> to_float (clean_price s)
      | PInt i \<Rightarrow> Some (Fin (of_int i))
      | PFloat r \<Rightarrow> Some (Fin r))"

text \<open>
  The loop of \<open>_extract_price\<close>, with \<open>first_price\<close> carried along; the result is
  \<open>(unit_price, first_price)\<close> when the loop ends or breaks.
\<close>

fun scan_price_breaks ::
  "(string \<Rightarrow> pyfloat option) \<Rightarrow> price_break list \<Rightarrow> pyfloat option \<Rightarrow>
     pyfloat option \<times> pyfloat option" where
  "scan_price_breaks to_float [] first_price = (None, first_price)"
| "scan_price_breaks to_float (pb # rest) first_price =
     (if \<not> pyval_truthy (pb_price pb) then scan_price_breaks to_float rest first_price
      else case price_float to_float (pb_price pb) of
             None \<Rightarrow> scan_price_breaks to_float rest first_price
           | Some pf \<Rightarrow>
               (let first_price = (case first_price of None \<Rightarrow> Some pf | Some f \<Rightarrow> Some f)
                in if pb_quantity pb = 1 then (Some pf, first_price)
                   else scan_price_breaks to_float rest first_price))"

definition extract_price :: "(string \<Rightarrow> pyfloat option) \<Rightarrow> candidate \<Rightarrow> pyfloat" where
  "extract_price to_float p =
     (let pbs = get_or (price_breaks p) []
      in if pbs = [] then PosInf
         else case scan_price_breaks to_float pbs None of
                (Some unit_price, first_price) \<Rightarrow> unit_price
              | (None, Some first_price) \<Rightarrow> first_price
              | (None, None) \<Rightarrow> PosInf)"

text \<open>
  \<open>rank_parts_with_preference\<close>. The ranker is returned with the result: in stock
  mode its weights are replaced for the call and restored after it, unless the
  ranking raised.
\<close>

definition rank_parts_with_preference ::
  "(string \<Rightarrow> pyfloat option) \<Rightarrow> ranking_engine \<Rightarrow> candidate list \<Rightarrow> string option \<Rightarrow> string \<Rightarrow>
     (py_error + candidate list) \<times> ranking_engine" where
  "rank_parts_with_preference to_float ranker results target_package sort_by =
     (if sort_by = ''price'' then
        (case score_parts to_float ranker target_package results of
           Inl e \<Rightarrow> (Inl e, ranker)
         | Inr scored \<Rightarrow>
             (Inr (sort_key (\<lambda>p. (extract_price to_float p, - get_or (stock p) 0)) scored), ranker))
      else
        (let total = 6 / 10 + 2 / 10 + 1 / 10 + 1 / 10;
             adjusted = ranker\<lparr>stock_weight := (6 / 10) / total, price_weight := (2 / 10) / total,
                               lifecycle_weight := (1 / 10) / total,
                               package_match_weight := (1 / 10) / total\<rparr>
         in case rank_parts to_float adjusted results target_package of
              Inl e \<Rightarrow> (Inl e, adjusted)
            | Inr ranked \<Rightarrow> (Inr ranked, ranker)))"

text \<open>The ranker of the application, and a reader of plain decimals for the examples.\<close>

definition app_ranker :: ranking_engine where
  "app_ranker = init_ranking_engine (3 / 10) (5 / 10) (1 / 10) (1 / 10)"

definition decimal_float :: "string \<Rightarrow> pyfloat option" where
  "decimal_float s =
     (let ip = takeWhile (\<lambda>c. c \<noteq> CHR ''.'') s;
          fp = drop 1 (dropWhile (\<lambda>c. c \<noteq> CHR ''.'') s)
      in if ip @ fp \<noteq> [] \<and> list_all ascii_digit (ip @ fp)
         then Some (Fin (of_int (digits_value (ip @ fp)) / 10 ^ length fp))
         else None)"

definition priced :: "string \<Rightarrow> int \<Rightarrow> string \<Rightarrow> candidate" where
  "priced name n price =
     blank_candidate\<lparr>mpn := Some name, stock := Some n,
       price_breaks := Some [\<lparr>pb_quantity = 1, pb_price = PStr price, pb_currency = ''USD''\<rparr>]\<rparr>"

text \<open>Helpers for the proofs: the weighted sum, and a candidate with its score set.\<close>

definition weighted_total ::
  "(string \<Rightarrow> pyfloat option) \<Rightarrow> ranking_engine \<Rightarrow> candidate \<Rightarrow> string option \<Rightarrow> rat" where
  "weighted_total to_float ranker p target_package =
     stock_weight ranker * score_stock p + price_weight ranker * score_price to_float p +
     lifecycle_weight ranker * score_lifecycle p +
     package_match_weight ranker * score_package_match p target_package"

definition attach_score ::
  "(string \<Rightarrow> pyfloat option) \<Rightarrow> ranking_engine \<Rightarrow> string option \<Rightarrow> candidate \<Rightarrow> candidate" where
  "attach_score to_float ranker target_package p =
     p\<lparr>score := Some (py_round2 (weighted_total to_float ranker p target_package))\<rparr>"

definition stock_ranker :: "ranking_engine \<Rightarrow> ranking_engine" where
  "stock_ranker ranker =
     ranker\<lparr>stock_weight := 6 / 10, price_weight := 2 / 10, lifecycle_weight := 1 / 10,
            package_match_weight := 1 / 10\<rparr>"

definition two_offers :: "candidate list" where
  "two_offers = [priced ''B'' 50 ''$0.01'', priced ''A'' 5000 ''$0.02'']"

text \<open>
  The unit price in the words of the claim: among the price breaks whose price is
  present and parses, the price of the first one with quantity 1, else the price of
  the first one, else infinity.
\<close>

definition parsed_breaks :: "(string \<Rightarrow> pyfloat option) \<Rightarrow> price_break list \<Rightarrow> (int \<times> pyfloat) list" where
  "parsed_breaks to_float pbs =
     List.map_filter
       (\<lambda>pb. if pyval_truthy (pb_price pb)
              then map_option (Pair (pb_quantity pb)) (price_float to_float (pb_price pb))
              else None) pbs"

definition claimed_unit_price :: "(string \<Rightarrow> pyfloat option) \<Rightarrow> candidate \<Rightarrow> pyfloat" where
  "claimed_unit_price to_float p =
     (let parsed = parsed_breaks to_float (get_or (price_breaks p) [])
      in case find (\<lambda>qp. fst qp = 1) parsed of
           Some qp \<Rightarrow> snd qp
         | None \<Rightarrow> (case parsed of [] \<Rightarrow> PosInf | qp # rest \<Rightarrow> snd qp))"

definition scan_result :: "pyfloat option \<times> pyfloat option \<Rightarrow> pyfloat" where
  "scan_result r =
     (case r of (Some unit_price, first_price) \<Rightarrow> unit_price
              | (None, Some first_price) \<Rightarrow> first_price
              | (None, None) \<Rightarrow> PosInf)"

definition same_price_offers :: "candidate list" where
  "same_price_offers = [priced ''Z'' 5 ''$0.02'', priced ''A'' 5000 ''$0.02'']"

definition no_price_breaks :: candidate where
  "no_price_breaks = blank_candidate\<lparr>mpn := Some ''X'', stock := Some 5, price_breaks := Some []\<rparr>"

section \<open>Theorems\<close>

lemma py_upper_statuses:
  "py_upper ''OBSOLETE'' = ''OBSOLETE''"
  "py_upper ''EOL'' = ''EOL''"
  "py_upper ''END OF LIFE'' = ''END OF LIFE''"
  "py_upper ''NOT RECOMMENDED FOR NEW DESIGNS'' = ''NOT RECOMMENDED FOR NEW DESIGNS''"
  "py_upper ''END OF LIFE (EOL)'' = ''END OF LIFE (EOL)''"
  by (simp_all add: py_upper_def upper_char_def)

lemma end_of_life_iff: "end_of_life p \<longleftrightarrow> lifecycle_upper p \<in> set obsolete_statuses"
  unfolding end_of_life_def case_insensitive_equal_def lifecycle_upper_def obsolete_statuses_def
  by (simp only: py_upper_statuses list.set bex_simps insert_iff empty_iff)

text \<open>
  C9. With \<open>in_stock_only\<close> the filter keeps exactly the candidates whose stock is
  greater than 0, and with \<open>active_only\<close> it removes exactly the candidates whose
  lifecycle string is case-insensitively equal to one of OBSOLETE, EOL, END OF LIFE,
  NOT RECOMMENDED FOR NEW DESIGNS, END OF LIFE (EOL); the order of the kept candidates
  is the input order.
\<close>

theorem apply_filters_keeps_exactly:
  "apply_filters parts in_stock_only active_only =
     filter (\<lambda>p. (in_stock_only \<longrightarrow> get_or (stock p) 0 > 0) \<and>
                 (active_only \<longrightarrow> \<not> end_of_life p)) parts"
  by (simp add: apply_filters_def end_of_life_iff)

theorem apply_filters_keeps_exactly_witness:
  "apply_filters [blank_candidate\<lparr>stock := Some 0\<rparr>, blank_candidate\<lparr>stock := Some 3\<rparr>]
     True False = [blank_candidate\<lparr>stock := Some 3\<rparr>] \<and>
   apply_filters [blank_candidate\<lparr>lifecycle := Some ''Obsolete''\<rparr>,
                  blank_candidate\<lparr>lifecycle := Some ''New Product''\<rparr>,
                  blank_candidate\<lparr>lifecycle := Some ''End of Life (EOL)''\<rparr>]
     False True = [blank_candidate\<lparr>lifecycle := Some ''New Product''\<rparr>]"
  using apply_filters_keeps_exactly
    [of "[blank_candidate\<lparr>stock := Some 0\<rparr>, blank_candidate\<lparr>stock := Some 3\<rparr>]" True False]
    apply_filters_keeps_exactly
    [of "[blank_candidate\<lparr>lifecycle := Some ''Obsolete''\<rparr>,
          blank_candidate\<lparr>lifecycle := Some ''New Product''\<rparr>,
          blank_candidate\<lparr>lifecycle := Some ''End of Life (EOL)''\<rparr>]" False True]
  by (simp add: get_or_def end_of_life_def case_insensitive_equal_def py_upper_def
        upper_char_def blank_candidate_def)

subsection \<open>Consolidation\<close>

lemma filter_removeAll_member:
  "x \<in> A \<Longrightarrow> filter (\<lambda>y. y \<notin> A) (removeAll x ys) = filter (\<lambda>y. y \<notin> A) ys"
  by (induction ys) auto

lemma filter_insert_removeAll:
  "filter (\<lambda>y. y \<notin> insert x A) ys = filter (\<lambda>y. y \<notin> A) (removeAll x ys)"
  by (induction ys) auto

lemma filter_conj_removeAll:
  "filter (\<lambda>y. y \<noteq> x \<and> y \<notin> A) ys = filter (\<lambda>y. y \<notin> A) (removeAll x ys)"
  by (induction ys) auto

lemma set_first_seen: "set (first_seen xs) = set xs"
  by (induction xs) auto

lemma distinct_first_seen: "distinct (first_seen xs)"
  by (induction xs) (auto simp: distinct_removeAll)

text \<open>Appending unseen elements one by one lists the first occurrences.\<close>

lemma fold_first_seen:
  "fold (\<lambda>x acc. if x \<notin> set acc then acc @ [x] else acc) xs acc =
     acc @ filter (\<lambda>x. x \<notin> set acc) (first_seen xs)"
proof (induction xs arbitrary: acc)
  case Nil
  then show ?case by simp
next
  case (Cons x xs)
  show ?case
  proof (cases "x \<in> set acc")
    case True
    with Cons.IH [of acc] show ?thesis
      by (simp add: filter_removeAll_member)
  next
    case False
    with Cons.IH [of "acc @ [x]"] show ?thesis
      by (simp add: filter_conj_removeAll)
  qed
qed

lemma absorb_simps:
  "absorb h [] p = p"
  "absorb h (r # g) p = absorb h g (add_quantity h r (add_refdes r p))"
  by (simp_all add: absorb_def)

lemma quantity_absorb: "quantity (absorb h g p) = quantity p + sum_list (map (row_increment h) g)"
  by (induction g arbitrary: p)
     (simp_all add: absorb_simps add_quantity_def add_refdes_def Let_def)

lemma part_mpn_absorb: "part_mpn (absorb h g p) = part_mpn p"
  by (induction g arbitrary: p)
     (simp_all add: absorb_simps add_quantity_def add_refdes_def Let_def)

lemma refdes_list_absorb:
  "refdes_list (absorb h g p) =
     refdes_list p @ filter (\<lambda>s. s \<notin> set (refdes_list p))
                       (first_seen (filter (\<lambda>s. s \<noteq> '''') (map stripped_refdes g)))"
proof (induction g arbitrary: p)
  case Nil
  then show ?case by (simp add: absorb_simps)
next
  case (Cons r g)
  let ?rd = "stripped_refdes r"
  show ?case
  proof (cases "?rd \<noteq> '''' \<and> ?rd \<notin> set (refdes_list p)")
    case True
    then have "refdes_list (add_quantity h r (add_refdes r p)) = refdes_list p @ [?rd]"
      by (simp add: add_quantity_def add_refdes_def stripped_refdes_def)
    with True Cons.IH [of "add_quantity h r (add_refdes r p)"] show ?thesis
      by (simp add: absorb_simps filter_conj_removeAll)
  next
    case False
    then have "refdes_list (add_quantity h r (add_refdes r p)) = refdes_list p"
      by (auto simp add: add_quantity_def add_refdes_def stripped_refdes_def Let_def)
    with False Cons.IH [of "add_quantity h r (add_refdes r p)"] show ?thesis
      by (auto simp add: absorb_simps filter_removeAll_member)
  qed
qed

text \<open>The dict after the loop, read at one key.\<close>

lemma map_of_add_row:
  "map_of (add_row h r d) k =
     (if group_key h r = k
      then Some (add_quantity h r (add_refdes r (case map_of d k of None \<Rightarrow> new_part r | Some p \<Rightarrow> p)))
      else map_of d k)"
  by (auto simp add: add_row_def Let_def update_conv')

lemma map_of_fold_add_row:
  "map_of (fold (add_row h) rows d) k =
     (case filter (\<lambda>r. group_key h r = k) rows of
        [] \<Rightarrow> map_of d k
      | r # g \<Rightarrow> Some (absorb h (r # g) (case map_of d k of None \<Rightarrow> new_part r | Some p \<Rightarrow> p)))"
proof (induction rows arbitrary: d)
  case Nil
  then show ?case by simp
next
  case (Cons r rows)
  show ?case
  proof (cases "group_key h r = k")
    case True
    then show ?thesis
      using Cons.IH [of "add_row h r d"]
      by (simp add: map_of_add_row absorb_simps split: list.splits)
  next
    case False
    then show ?thesis
      using Cons.IH [of "add_row h r d"]
      by (simp add: map_of_add_row split: list.splits)
  qed
qed

lemma keys_add_row:
  "map fst (add_row h r d) =
     (if group_key h r \<in> set (map fst d) then map fst d else map fst d @ [group_key h r])"
  by (simp add: add_row_def Let_def update_keys)

lemma keys_fold_add_row:
  "map fst (fold (add_row h) rows d) =
     map fst d @ filter (\<lambda>k. k \<notin> set (map fst d)) (first_seen (map (group_key h) rows))"
proof (induction rows arbitrary: d)
  case Nil
  then show ?case by simp
next
  case (Cons r rows)
  show ?case
  proof (cases "group_key h r \<in> set (map fst d)")
    case True
    with Cons.IH [of "add_row h r d"] show ?thesis
      by (simp add: keys_add_row filter_removeAll_member)
  next
    case False
    with Cons.IH [of "add_row h r d"] show ?thesis
      by (simp add: keys_add_row filter_conj_removeAll)
  qed
qed

lemma keys_parts_dict_of:
  "map fst (parts_dict_of h rows) = first_seen (map (group_key h) rows)"
  by (simp add: parts_dict_of_def keys_fold_add_row)

lemma distinct_parts_dict_of: "distinct (map fst (parts_dict_of h rows))"
  by (simp add: keys_parts_dict_of distinct_first_seen)

lemma parts_dict_of_entry:
  assumes "(k, p) \<in> set (parts_dict_of h rows)"
  shows "\<exists>r g. filter (\<lambda>r. group_key h r = k) rows = r # g \<and> p = absorb h (r # g) (new_part r)"
proof -
  have "map_of (parts_dict_of h rows) k = Some p"
    using assms distinct_parts_dict_of by (simp add: map_of_eq_Some_iff)
  then show ?thesis
    by (auto simp add: parts_dict_of_def map_of_fold_add_row split: list.splits)
qed

lemma ascii_digit_isdigit: "ascii_digit c \<Longrightarrow> isdigit_char c"
  by (simp add: ascii_digit_def isdigit_char_def Let_def)

lemma row_increment_counted: "row_increment py r = counted_row_quantity py r"
proof (cases "map_of r ''quantity''")
  case None
  then show ?thesis by (simp add: row_increment_def counted_row_quantity_def)
next
  case (Some s)
  show ?thesis
  proof (cases "str_isdigit py s")
    case True
    with Some show ?thesis
      by (cases "str_int py s") (simp_all add: row_increment_def counted_row_quantity_def)
  next
    case False
    with Some show ?thesis
      by (simp add: row_increment_def counted_row_quantity_def)
  qed
qed

lemma row_increment_eq: "row_increment py = counted_row_quantity py"
  by (rule ext) (rule row_increment_counted)

text \<open>The cases of the counted quantity, read off the two builtins.\<close>

lemma counted_row_quantity_cases:
  assumes "map_of r ''quantity'' = Some s"
  shows "str_isdigit py s \<Longrightarrow> str_int py s = Some n \<Longrightarrow> n \<noteq> 0 \<Longrightarrow>
           counted_row_quantity py r = n"
    and "str_isdigit py s \<Longrightarrow> str_int py s = Some 0 \<Longrightarrow> counted_row_quantity py r = 1"
    and "str_isdigit py s \<Longrightarrow> str_int py s = None \<Longrightarrow> counted_row_quantity py r = 1"
    and "\<not> str_isdigit py s \<Longrightarrow> counted_row_quantity py r = 1"
  using assms by (simp_all add: counted_row_quantity_def)

lemma quantity_format_refdes: "quantity (format_refdes p) = quantity p"
  by (simp add: format_refdes_def)

text \<open>
  On text of code points below 256, with the default digit limit: a row counts for
  the value of its quantity field when that is a text of at most 4300 ASCII digits
  with a value other than zero, and for 1 otherwise.
\<close>

lemma counted_row_quantity_example:
  "counted_row_quantity example_builtins r =
     (case map_of r ''quantity'' of
        None \<Rightarrow> 1
      | Some s \<Rightarrow> if s \<noteq> [] \<and> list_all ascii_digit s \<and> length s \<le> 4300 \<and> digits_value s \<noteq> 0
                  then digits_value s else 1)"
proof (cases "map_of r ''quantity''")
  case None
  then show ?thesis by (simp add: counted_row_quantity_def)
next
  case (Some s)
  have "list_all ascii_digit s \<Longrightarrow> list_all isdigit_char s"
    by (induction s) (auto simp: ascii_digit_isdigit)
  with Some show ?thesis
    by (auto simp add: counted_row_quantity_def example_builtins_def py_isdigit_def py_int_def)
qed

text \<open>
  C3, as the code has it. The quantities of the consolidated parts, group by group in
  first-seen order: each is the sum over the rows of its group of the row's counted
  quantity, which is the integer \<open>int\<close> reads from the quantity field when the field
  passes \<open>str.isdigit\<close>, \<open>int\<close> does not raise and the integer is not zero, and 1 for
  every other row (field missing, not a digit text, \<open>int\<close> raising, or zero). This
  holds for whatever \<open>str.isdigit\<close> and \<open>int\<close> return: a digit of another script
  counts for its value where the interpreter reads it, and a text of more digits than
  \<open>int\<close> accepts counts for 1.
\<close>

theorem consolidated_quantity_sums:
  "map quantity (get_consolidated_parts h rows) =
     map (\<lambda>k. sum_list (map (counted_row_quantity h) (filter (\<lambda>r. group_key h r = k) rows)))
         (first_seen (map (group_key h) rows))"
proof -
  let ?d = "parts_dict_of h rows"
  let ?F = "\<lambda>k. sum_list (map (counted_row_quantity h) (filter (\<lambda>r. group_key h r = k) rows))"
  have "quantity (format_refdes p) = ?F k" if "(k, p) \<in> set ?d" for k p
  proof -
    from parts_dict_of_entry [OF that] obtain r g where
      g: "filter (\<lambda>r. group_key h r = k) rows = r # g" and p: "p = absorb h (r # g) (new_part r)"
      by blast
    have "quantity p = sum_list (map (row_increment h) (r # g))"
      unfolding p by (simp add: quantity_absorb new_part_def)
    then show ?thesis
      by (simp add: g quantity_format_refdes row_increment_eq)
  qed
  then have "map quantity (get_consolidated_parts h rows) = map (\<lambda>kp. ?F (fst kp)) ?d"
    by (auto simp add: get_consolidated_parts_def)
  also have "\<dots> = map ?F (map fst ?d)"
    by (simp add: comp_def)
  finally show ?thesis
    by (simp only: keys_parts_dict_of)
qed

theorem consolidated_quantity_sums_witness:
  "map quantity (get_consolidated_parts example_builtins
     [[(''mpn'', ''R1-103''), (''refdes'', ''R1''), (''quantity'', ''1'')],
      [(''mpn'', ''C7''), (''refdes'', ''C1''), (''quantity'', ''x'')],
      [(''mpn'', ''R1-103''), (''refdes'', ''R2''), (''quantity'', ''12'')]]) = [13, 1]"
  using consolidated_quantity_sums [of example_builtins
     "[[(''mpn'', ''R1-103''), (''refdes'', ''R1''), (''quantity'', ''1'')],
      [(''mpn'', ''C7''), (''refdes'', ''C1''), (''quantity'', ''x'')],
      [(''mpn'', ''R1-103''), (''refdes'', ''R2''), (''quantity'', ''12'')]]"]
  by (simp add: group_key_def get_or_def py_strip_def py_isspace_def
        counted_row_quantity_example ascii_digit_def digits_value_def)

text \<open>
  C3 as stated fails: a single row with quantity \<open>0\<close> gives a part of quantity 1,
  where the sum of the parsed quantities is 0.
\<close>

theorem zero_quantity_counterexample:
  "map quantity (get_consolidated_parts example_builtins
     [[(''mpn'', ''X''), (''quantity'', ''0'')]]) = [1] \<and>
   sum_list (map (claimed_row_quantity example_builtins)
     [[(''mpn'', ''X''), (''quantity'', ''0'')]]) = 0"
  by (simp add: get_consolidated_parts_def parts_dict_of_def add_row_def group_key_def
        py_strip_def py_isspace_def get_or_def new_part_def add_quantity_def add_refdes_def
        row_increment_def example_builtins_def py_isdigit_def isdigit_char_def py_int_def
        ascii_digit_def digits_value_def format_refdes_def claimed_row_quantity_def)

lemma str_nat_digits: "set (str_nat n) \<subseteq> set ''0123456789''"
proof (induction n rule: str_nat.induct)
  case (1 n)
  have nth: "''0123456789'' ! k \<in> set ''0123456789''" if "k < 10" for k :: nat
    using that by (intro nth_mem) simp
  show ?case
  proof (cases "n < 10")
    case True
    then show ?thesis
      using nth [of n] by (subst str_nat.simps) simp
  next
    case False
    then show ?thesis
      using 1 nth [of "n mod 10"] by (subst str_nat.simps) simp
  qed
qed

lemma py_str_int_no_m: "CHR ''m'' \<notin> set (py_str_int i)"
  using str_nat_digits [of "nat i"] str_nat_digits [of "nat (- i)"]
  by (auto simp add: py_str_int_def)

lemma py_str_int_not_mpn: "py_str_int i \<noteq> CHR ''m'' # s"
proof
  assume "py_str_int i = CHR ''m'' # s"
  then have "CHR ''m'' \<in> set (py_str_int i)" by simp
  with py_str_int_no_m show False by blast
qed

lemma group_key_mpn:
  "m \<noteq> '''' \<Longrightarrow> group_key h r = ''mpn:'' @ m \<longleftrightarrow> stripped_mpn r = m"
  by (auto simp add: group_key_def Let_def stripped_mpn_def py_str_int_not_mpn)

lemma part_mpn_entry:
  assumes "(k, p) \<in> set (parts_dict_of h rows)" and "m \<noteq> ''''"
  shows "part_mpn p = m \<longleftrightarrow> k = ''mpn:'' @ m"
proof -
  from parts_dict_of_entry [OF assms(1)] obtain r g where
    g: "filter (\<lambda>r. group_key h r = k) rows = r # g" and p: "p = absorb h (r # g) (new_part r)"
    by blast
  have "r \<in> set (filter (\<lambda>r. group_key h r = k) rows)"
    by (simp add: g)
  then have k: "group_key h r = k" by simp
  have "part_mpn p = stripped_mpn r"
    unfolding p by (simp add: part_mpn_absorb new_part_def stripped_mpn_def)
  with group_key_mpn [OF assms(2), of h r] k show ?thesis by simp
qed

lemma filter_key_singleton:
  "distinct (map fst d) \<Longrightarrow> (k, p) \<in> set d \<Longrightarrow> filter (\<lambda>kp. fst kp = k) d = [(k, p)]"
proof (induction d)
  case Nil
  then show ?case by simp
next
  case (Cons a d)
  show ?case
  proof (cases "fst a = k")
    case True
    with Cons.prems have "a = (k, p)" by (cases a) (auto simp: image_iff)
    moreover from True Cons.prems have "filter (\<lambda>kp. fst kp = k) d = []"
      by (auto simp add: filter_empty_conv image_iff)
    ultimately show ?thesis by simp
  next
    case False
    with Cons show ?thesis by auto
  qed
qed

lemma refdes_entry:
  assumes "(k, p) \<in> set (parts_dict_of h rows)"
  shows "refdes (format_refdes p) =
           Some (py_join '', '' (first_seen (filter (\<lambda>s. s \<noteq> '''')
                   (map stripped_refdes (filter (\<lambda>r. group_key h r = k) rows)))))"
proof -
  from parts_dict_of_entry [OF assms(1)] obtain r g where
    g: "filter (\<lambda>r. group_key h r = k) rows = r # g" and p: "p = absorb h (r # g) (new_part r)"
    by blast
  have "refdes_list (new_part r) = []" by (simp add: new_part_def)
  then have "refdes_list p = first_seen (filter (\<lambda>s. s \<noteq> '''') (map stripped_refdes (r # g)))"
    unfolding p by (simp only: refdes_list_absorb) simp
  then show ?thesis
    by (simp only: format_refdes_def g) simp
qed

text \<open>The rows with a given non-empty MPN make exactly one part; its refdes.\<close>

lemma mpn_group_general:
  assumes "m \<noteq> ''''" and "\<exists>r \<in> set rows. stripped_mpn r = m"
  shows "\<exists>p. filter (\<lambda>p. part_mpn p = m) (get_consolidated_parts h rows) = [p] \<and>
             refdes p = Some (py_join '', '' (first_seen (filter (\<lambda>s. s \<noteq> '''')
                          (map stripped_refdes (filter (\<lambda>r. stripped_mpn r = m) rows)))))"
proof -
  let ?d = "parts_dict_of h rows"
  let ?k = "''mpn:'' @ m"
  from assms obtain r where "r \<in> set rows" "group_key h r = ?k"
    using group_key_mpn by blast
  then have "?k \<in> set (map fst ?d)"
    by (simp only: keys_parts_dict_of set_first_seen) force
  then obtain p where p: "(?k, p) \<in> set ?d" by auto
  have iff: "part_mpn (snd kp) = m \<longleftrightarrow> fst kp = ?k" if "kp \<in> set ?d" for kp
    using part_mpn_entry [of "fst kp" "snd kp" h rows m] that assms(1) by simp
  have out: "get_consolidated_parts h rows = map (\<lambda>kp. format_refdes (snd kp)) ?d"
    by (simp add: get_consolidated_parts_def case_prod_unfold)
  have "filter (\<lambda>kp. part_mpn (snd kp) = m) ?d = filter (\<lambda>kp. fst kp = ?k) ?d"
    using iff by (rule filter_cong [OF refl])
  also have "\<dots> = [(?k, p)]"
    using distinct_parts_dict_of p by (rule filter_key_singleton)
  finally have one: "filter (\<lambda>kp. part_mpn (snd kp) = m) ?d = [(?k, p)]" .
  have "filter (\<lambda>p. part_mpn p = m) (get_consolidated_parts h rows) =
          map (\<lambda>kp. format_refdes (snd kp)) (filter (\<lambda>kp. part_mpn (snd kp) = m) ?d)"
    unfolding out filter_map by (simp add: comp_def format_refdes_def)
  then have "filter (\<lambda>p. part_mpn p = m) (get_consolidated_parts h rows) = [format_refdes p]"
    by (simp only: one) simp
  moreover have "filter (\<lambda>r. group_key h r = ?k) rows = filter (\<lambda>r. stripped_mpn r = m) rows"
    using group_key_mpn [OF assms(1)] by simp
  ultimately show ?thesis
    using refdes_entry [OF p] by simp
qed

lemma py_strip_Nil: "py_strip [] = []"
  by (simp add: py_strip_def)

lemma stripped_row_field:
  assumes "stripped_row r"
  shows "py_strip (row_field r k) = row_field r k"
proof (cases "map_of r k")
  case None
  then show ?thesis by (simp add: row_field_def get_or_def py_strip_Nil)
next
  case (Some v)
  then have "(k, v) \<in> set r" by (rule map_of_SomeD)
  with assms have "py_strip v = v"
    by (auto simp add: stripped_row_def list_all_iff)
  with Some show ?thesis by (simp add: row_field_def get_or_def)
qed

lemma stripped_rows_mpn:
  "list_all stripped_row rows \<Longrightarrow>
     filter (\<lambda>r. stripped_mpn r = m) rows = filter (\<lambda>r. row_field r ''mpn'' = m) rows"
  by (rule filter_cong [OF refl])
     (use stripped_row_field in \<open>auto simp add: list_all_iff stripped_mpn_def row_field_def\<close>)

lemma stripped_rows_refdes:
  "list_all stripped_row rows \<Longrightarrow>
     map stripped_refdes (filter P rows) = map (\<lambda>r. row_field r ''refdes'') (filter P rows)"
  by (rule map_cong [OF refl])
     (use stripped_row_field in \<open>auto simp add: list_all_iff stripped_refdes_def row_field_def\<close>)

text \<open>
  C4. For raw rows as the parser delivers them (every cell stripped) and a non-empty
  MPN \<open>m\<close> that occurs in them: exactly one consolidated part has MPN \<open>m\<close>, and its
  refdes is the non-empty reference designators of the rows with MPN \<open>m\<close>, distinct,
  in first-seen order, joined with a comma and a space. The keys of the groups are in
  first-seen order, and the result list is the groups in that order.
\<close>

theorem same_mpn_one_part:
  assumes "list_all stripped_row rows" and "m \<noteq> ''''"
    and "\<exists>r \<in> set rows. row_field r ''mpn'' = m"
  shows "(\<exists>p. filter (\<lambda>p. part_mpn p = m) (get_consolidated_parts h rows) = [p] \<and>
              refdes p = Some (py_join '', '' (first_seen (filter (\<lambda>s. s \<noteq> '''')
                 (map (\<lambda>r. row_field r ''refdes'')
                      (filter (\<lambda>r. row_field r ''mpn'' = m) rows)))))) \<and>
         map fst (parts_dict_of h rows) = first_seen (map (group_key h) rows) \<and>
         get_consolidated_parts h rows = map (\<lambda>kp. format_refdes (snd kp)) (parts_dict_of h rows)"
proof -
  from assms(3) obtain r where r: "r \<in> set rows" "row_field r ''mpn'' = m" by blast
  with assms(1) have "stripped_row r" by (simp add: list_all_iff)
  from stripped_row_field [OF this, of "''mpn''"] r have "stripped_mpn r = m"
    by (simp add: stripped_mpn_def row_field_def)
  with r have "\<exists>r \<in> set rows. stripped_mpn r = m" by blast
  from mpn_group_general [OF assms(2) this, of h]
  have "\<exists>p. filter (\<lambda>p. part_mpn p = m) (get_consolidated_parts h rows) = [p] \<and>
              refdes p = Some (py_join '', '' (first_seen (filter (\<lambda>s. s \<noteq> '''')
                 (map (\<lambda>r. row_field r ''refdes'')
                      (filter (\<lambda>r. row_field r ''mpn'' = m) rows)))))"
    by (simp only: stripped_rows_mpn [OF assms(1)] stripped_rows_refdes [OF assms(1)])
  moreover have "get_consolidated_parts h rows =
                   map (\<lambda>kp. format_refdes (snd kp)) (parts_dict_of h rows)"
    by (simp add: get_consolidated_parts_def case_prod_unfold)
  ultimately show ?thesis
    using keys_parts_dict_of [of h rows] by blast
qed

theorem same_mpn_one_part_witness:
  "list_all stripped_row
     [[(''mpn'', ''R1-103''), (''refdes'', ''R1''), (''quantity'', ''1'')],
      [(''mpn'', ''R1-103''), (''refdes'', ''R2''), (''quantity'', ''1'')]] \<and>
   (\<exists>p. filter (\<lambda>p. part_mpn p = ''R1-103'') (get_consolidated_parts example_builtins
     [[(''mpn'', ''R1-103''), (''refdes'', ''R1''), (''quantity'', ''1'')],
      [(''mpn'', ''R1-103''), (''refdes'', ''R2''), (''quantity'', ''1'')]]) = [p] \<and>
        refdes p = Some ''R1, R2'')"
proof -
  let ?rows = "[[(''mpn'', ''R1-103''), (''refdes'', ''R1''), (''quantity'', ''1'')],
      [(''mpn'', ''R1-103''), (''refdes'', ''R2''), (''quantity'', ''1'')]]"
  have s: "list_all stripped_row ?rows"
    by (simp add: stripped_row_def py_strip_def py_isspace_def)
  have m: "\<exists>r \<in> set ?rows. row_field r ''mpn'' = ''R1-103''"
    by (simp add: row_field_def get_or_def)
  have j: "py_join '', '' (first_seen (filter (\<lambda>s. s \<noteq> '''')
                 (map (\<lambda>r. row_field r ''refdes'')
                      (filter (\<lambda>r. row_field r ''mpn'' = ''R1-103'') ?rows)))) = ''R1, R2''"
    by (simp add: row_field_def get_or_def)
  have ne: "''R1-103'' \<noteq> ''''" by simp
  note one = same_mpn_one_part [OF s ne m, of example_builtins, THEN conjunct1]
  from s one [unfolded j] show ?thesis by (rule conjI)
qed

text \<open>Every value of a component is the text of one of the cells.\<close>

lemma values_update: "snd ` set (AList.update k v al) \<subseteq> insert v (snd ` set al)"
  by (induction al) auto

lemma values_make_component:
  "snd ` set (make_component cell_text headers cells) \<subseteq> cell_text ` set cells"
  unfolding make_component_def
proof (rule fold_invariant [where Q = "\<lambda>x. True"
      and P = "\<lambda>component. snd ` set component \<subseteq> cell_text ` set cells"])
  show "snd ` set [] \<subseteq> cell_text ` set cells" by simp
next
  fix x :: "nat \<times> string" and s :: row
  assume s: "snd ` set s \<subseteq> cell_text ` set cells"
  show "snd ` set ((case x of (col_idx, header) \<Rightarrow> \<lambda>component.
                      if col_idx < length cells
                      then AList.update header (cell_text (cells ! col_idx)) component
                      else component) s) \<subseteq> cell_text ` set cells"
  proof (cases x)
    case (Pair i h)
    show ?thesis
    proof (cases "i < length cells")
      case True
      then have "cell_text (cells ! i) \<in> cell_text ` set cells" by simp
      then have "insert (cell_text (cells ! i)) (snd ` set s) \<subseteq> cell_text ` set cells"
        using s by (rule insert_subsetI)
      with values_update [of h "cell_text (cells ! i)" s]
      have "snd ` set (AList.update h (cell_text (cells ! i)) s) \<subseteq> cell_text ` set cells"
        by (rule order_trans)
      then show ?thesis
        unfolding Pair prod.case if_P [OF True] .
    next
      case False
      then have "\<not> i < length cells" .
      from s show ?thesis
        unfolding Pair prod.case if_not_P [OF False] .
    qed
  qed
qed simp

lemma no_data_csv:
  assumes "\<not> list_ex (\<lambda>c. py_strip c \<noteq> []) cells"
  shows "\<not> has_data (make_component csv_text headers cells)"
proof
  assume "has_data (make_component csv_text headers cells)"
  then obtain v where v: "v \<in> snd ` set (make_component csv_text headers cells)" and ne: "v \<noteq> []"
    unfolding has_data_def list_ex_iff by auto
  from v values_make_component [of csv_text headers cells]
  have "v \<in> csv_text ` set cells" by (rule subsetD [rotated])
  then obtain c where c: "c \<in> set cells" and vc: "v = py_strip c"
    unfolding csv_text_def by (rule imageE)
  from assms c have "py_strip c = []"
    unfolding list_ex_iff by blast
  with vc ne show False by simp
qed

lemma empty_cells_no_strip:
  assumes "\<not> list_ex (\<lambda>c. c \<noteq> []) cells"
  shows "\<not> list_ex (\<lambda>c. py_strip c \<noteq> []) cells"
proof
  assume "list_ex (\<lambda>c. py_strip c \<noteq> []) cells"
  then obtain c where c: "c \<in> set cells" and ne: "py_strip c \<noteq> []"
    unfolding list_ex_iff by blast
  from assms c have "c = []"
    unfolding list_ex_iff by blast
  with ne show False by (simp add: py_strip_Nil)
qed

lemma parse_csv_rows_filter:
  "parse_csv_rows headers rows = filter has_data (map (make_component csv_text headers) rows)"
proof (induction rows)
  case Nil
  then show ?case by simp
next
  case (Cons cells rows)
  show ?case
  proof (cases "list_ex (\<lambda>c. c \<noteq> []) cells")
    case True
    with Cons show ?thesis by (simp add: Let_def)
  next
    case False
    then have "\<not> has_data (make_component csv_text headers cells)"
      by (intro no_data_csv empty_cells_no_strip)
    with False Cons show ?thesis by simp
  qed
qed

lemma parse_excel_rows_filter:
  "parse_excel_rows headers rows =
     filter has_data (map (make_component xl_text headers) (filter (list_ex truthy) rows))"
  by (induction rows) (auto simp add: Let_def)

lemma no_data_excel:
  assumes "list_all (\<lambda>c. c = XNone \<or> c = XStr '''') cells"
  shows "\<not> list_ex truthy cells"
  using assms by (auto simp add: list_all_iff list_ex_iff truthy_def)

text \<open>
  C10. Both row loops keep exactly the rows whose component has a non-empty stripped
  value (the Excel loop only among the rows with a truthy cell). So a row whose cells
  are all empty is dropped, a row whose stripped values are all empty is dropped, and
  every record returned has at least one non-empty field value.
\<close>

theorem parse_drops_empty_rows:
  "parse_csv_rows headers rows = filter has_data (map (make_component csv_text headers) rows) \<and>
   (list_all (\<lambda>c. py_strip c = '''') cells \<longrightarrow> \<not> has_data (make_component csv_text headers cells)) \<and>
   (list_all (\<lambda>c. c = '''') cells \<longrightarrow> list_all (\<lambda>c. py_strip c = '''') cells) \<and>
   list_all has_data (parse_csv_rows headers rows) \<and>
   parse_excel_rows headers xrows =
     filter has_data (map (make_component xl_text headers) (filter (list_ex truthy) xrows)) \<and>
   (list_all (\<lambda>c. c = XNone \<or> c = XStr '''') xcells \<longrightarrow> \<not> list_ex truthy xcells) \<and>
   list_all has_data (parse_excel_rows headers xrows)"
proof -
  have "list_all (\<lambda>c. py_strip c = '''') cells \<Longrightarrow> \<not> has_data (make_component csv_text headers cells)"
    by (rule no_data_csv) (simp add: list_all_iff list_ex_iff)
  moreover have "list_all (\<lambda>c. c = '''') cells \<Longrightarrow> list_all (\<lambda>c. py_strip c = '''') cells"
    by (auto simp add: list_all_iff py_strip_Nil)
  moreover have "list_all has_data (parse_csv_rows headers rows)"
    by (simp add: parse_csv_rows_filter list_all_iff)
  moreover have "list_all has_data (parse_excel_rows headers xrows)"
    by (simp add: parse_excel_rows_filter list_all_iff)
  ultimately show ?thesis
    using parse_csv_rows_filter [of headers rows] parse_excel_rows_filter [of headers xrows]
      no_data_excel [of xcells]
    by (intro conjI impI)
qed

theorem parse_drops_empty_rows_witness:
  "parse_csv_rows [''mpn'', ''refdes''] [[''A'', '' R1 ''], ['''', ''''], ['' '', '''']] =
     [[(''mpn'', ''A''), (''refdes'', ''R1'')]] \<and>
   \<not> has_data (make_component csv_text [''mpn'', ''refdes''] ['' '', '''']) \<and>
   parse_excel_rows [''mpn'', ''refdes'']
       [[XStr ''A'', XOther True ''2''], [XNone, XNone], [XStr '' '', XNone]] =
     [[(''mpn'', ''A''), (''refdes'', ''2'')]] \<and>
   \<not> list_ex truthy [XNone, XStr '''']"
  using parse_drops_empty_rows [of "[''mpn'', ''refdes'']"
      "[[''A'', '' R1 ''], ['''', ''''], ['' '', '''']]" "['' '', '''']"
      "[[XStr ''A'', XOther True ''2''], [XNone, XNone], [XStr '' '', XNone]]" "[XNone, XStr '''']"]
  by (simp add: make_component_def csv_text_def xl_text_def py_strip_def py_isspace_def
        has_data_def truthy_def enumerate_eq_zip)

lemma strip_inner:
  assumes "xs = [] \<or> \<not> P (hd xs)"
  shows "dropWhile P (rev (dropWhile P (rev xs))) = rev (dropWhile P (rev xs))"
proof (cases xs)
  case Nil
  then show ?thesis by simp
next
  case (Cons x xs')
  with assms have x: "\<not> P x" by simp
  have "\<exists>ys. dropWhile P (rev xs' @ [x]) = ys @ [x]"
    using x by (simp add: dropWhile_append)
  then obtain ys where "dropWhile P (rev xs) = ys @ [x]"
    using Cons by auto
  with x show ?thesis by simp
qed

lemma py_strip_idem: "py_strip (py_strip s) = py_strip s"
proof -
  let ?t = "dropWhile py_isspace s"
  have "?t = [] \<or> \<not> py_isspace (hd ?t)"
    using hd_dropWhile [of py_isspace s] by blast
  from strip_inner [of "dropWhile py_isspace s" py_isspace, OF this] show ?thesis
    by (simp add: py_strip_def)
qed

lemma make_component_stripped:
  assumes "\<And>c. py_strip (cell_text c) = cell_text c"
  shows "stripped_row (make_component cell_text headers cells)"
proof -
  have "py_strip v = v" if "(k, v) \<in> set (make_component cell_text headers cells)" for k v
  proof -
    from that have "v \<in> snd ` set (make_component cell_text headers cells)" by force
    with values_make_component [of cell_text headers cells]
    have "v \<in> cell_text ` set cells" by (rule subsetD)
    then obtain c where "v = cell_text c" by (rule imageE)
    with assms show ?thesis by simp
  qed
  then show ?thesis
    unfolding stripped_row_def list_all_iff by fast
qed

text \<open>The parser delivers stripped rows.\<close>

lemma parse_rows_stripped:
  "list_all stripped_row (parse_csv_rows headers rows)"
  "list_all stripped_row (parse_excel_rows headers xrows)"
proof -
  have "stripped_row (make_component csv_text headers cells)" for cells
    by (rule make_component_stripped) (simp add: csv_text_def py_strip_idem)
  then show "list_all stripped_row (parse_csv_rows headers rows)"
    by (simp add: parse_csv_rows_filter list_all_iff image_iff) blast
  have "stripped_row (make_component xl_text headers cells)" for cells
    by (rule make_component_stripped)
       (simp add: xl_text_def py_strip_idem py_strip_Nil split: xl_value.splits)
  then show "list_all stripped_row (parse_excel_rows headers xrows)"
    by (simp add: parse_excel_rows_filter list_all_iff image_iff) blast
qed

subsection \<open>Confirmation and export\<close>

text \<open>
  C7. Confirming a choice for a part key records the candidate as that key's choice
  and sets its checked flag; the choice and flag of every other key are as before.
  A key that already had a choice keeps its place in the dict (the keys do not
  change); a new key is added at the end. The consolidated parts are untouched.
\<close>

theorem confirm_changes_one_part:
  "map_of (selected_parts (confirm_part_selection s k c)) k = Some c \<and>
   map_of (part_selected (confirm_part_selection s k c)) k = Some True \<and>
   (\<forall>k'. k' \<noteq> k \<longrightarrow>
      map_of (selected_parts (confirm_part_selection s k c)) k' = map_of (selected_parts s) k' \<and>
      map_of (part_selected (confirm_part_selection s k c)) k' = map_of (part_selected s) k') \<and>
   map fst (selected_parts (confirm_part_selection s k c)) =
     (if k \<in> set (map fst (selected_parts s)) then map fst (selected_parts s)
      else map fst (selected_parts s) @ [k]) \<and>
   consolidated_parts (confirm_part_selection s k c) = consolidated_parts s"
  by (simp add: confirm_part_selection_def update_conv' update_keys)

theorem confirm_changes_one_part_witness:
  "selected_parts (confirm_part_selection
      (confirm_part_selection (open_bom example_builtins two_rows [] init_session) ''part_0'' blank_candidate)
      ''part_0'' na_part) = [(''part_0'', na_part)] \<and>
   map_of (part_selected (confirm_part_selection
      (confirm_part_selection (open_bom example_builtins two_rows [] init_session) ''part_0'' blank_candidate)
      ''part_0'' na_part)) ''part_1'' = Some False"
  using confirm_changes_one_part [of
      "confirm_part_selection (open_bom example_builtins two_rows [] init_session) ''part_0'' blank_candidate"
      "''part_0''" na_part]
  by (simp add: confirm_part_selection_def open_bom_def init_session_def two_rows_def Let_def
        init_checkboxes_def generate_part_key_def str_nat.simps get_consolidated_parts_def
        parts_dict_of_def add_row_def group_key_def get_or_def py_strip_def py_isspace_def
        upt_rec [of 0] upt_rec [of 1] upt_rec [of 2])

lemma keys_confirm_all:
  "map fst (selected_parts (confirm_all s kcs)) =
     map fst (selected_parts s) @
     filter (\<lambda>k. k \<notin> set (map fst (selected_parts s))) (first_seen (map fst kcs))"
proof (induction kcs arbitrary: s)
  case Nil
  then show ?case by (simp add: confirm_all_def)
next
  case (Cons kc kcs)
  obtain k c where kc: "kc = (k, c)" by (cases kc)
  have step: "confirm_all s (kc # kcs) = confirm_all (confirm_part_selection s k c) kcs"
    by (simp add: confirm_all_def kc)
  have keys: "map fst (selected_parts (confirm_part_selection s k c)) =
     (if k \<in> set (map fst (selected_parts s)) then map fst (selected_parts s)
      else map fst (selected_parts s) @ [k])"
    by (simp add: confirm_part_selection_def update_keys)
  show ?case
  proof (cases "k \<in> set (map fst (selected_parts s))")
    case True
    with Cons.IH [of "confirm_part_selection s k c"] keys show ?thesis
      unfolding step by (simp add: kc filter_removeAll_member)
  next
    case False
    with Cons.IH [of "confirm_part_selection s k c"] keys show ?thesis
      unfolding step by (simp add: kc filter_conj_removeAll)
  qed
qed

lemma get_export_data_map:
  "get_export_data s =
     map (\<lambda>kc. build_row s (fst kc) (snd kc))
         (filter (\<lambda>kc. get_or (map_of (part_selected s) (fst kc)) False) (selected_parts s))"
  by (simp add: get_export_data_def checked_parts_def case_prod_unfold)

text \<open>
  C2, as the code has it. The export list has one record per part that has a
  confirmed choice and is checked, in the order of the \<open>selected_parts\<close> dict; and
  starting from a session without choices, that order is the order in which the
  parts were first confirmed.
\<close>

theorem export_in_confirmation_order:
  "get_export_data s =
     map (\<lambda>kc. build_row s (fst kc) (snd kc))
         (filter (\<lambda>kc. get_or (map_of (part_selected s) (fst kc)) False) (selected_parts s)) \<and>
   (selected_parts s = [] \<longrightarrow>
      map fst (selected_parts (confirm_all s choices)) = first_seen (map fst choices))"
  using get_export_data_map [of s] keys_confirm_all [of s choices] by simp

theorem export_in_confirmation_order_witness:
  "selected_parts (open_bom example_builtins two_rows [] init_session) = [] \<and>
   map fst (selected_parts
      (confirm_all (open_bom example_builtins two_rows [] init_session)
         [(''part_1'', na_part), (''part_0'', na_part), (''part_1'', blank_candidate)])) =
     [''part_1'', ''part_0''] \<and>
   get_export_data (open_bom example_builtins two_rows [] init_session) = []"
  using export_in_confirmation_order [of "open_bom example_builtins two_rows [] init_session"
         "[(''part_1'', na_part), (''part_0'', na_part), (''part_1'', blank_candidate)]"]
  by (simp add: open_bom_def Let_def)

text \<open>
  C2 as stated fails: with two parts, confirming the second and then the first
  exports the second part's record first, against the consolidated order.
\<close>

theorem export_order_counterexample:
  "map REFDES (get_export_data
      (confirm_part_selection
         (confirm_part_selection (open_bom example_builtins two_rows [] init_session) ''part_1'' na_part)
         ''part_0'' na_part)) = [''C1'', ''R1''] \<and>
   map refdes_text (consolidated_parts
      (confirm_part_selection
         (confirm_part_selection (open_bom example_builtins two_rows [] init_session) ''part_1'' na_part)
         ''part_0'' na_part)) = [''R1'', ''C1'']"
  by (simp add: confirm_part_selection_def open_bom_def init_session_def
        two_rows_def Let_def init_checkboxes_def build_index_def generate_part_key_def
        str_nat.simps get_consolidated_parts_def parts_dict_of_def add_row_def group_key_def
        get_or_def py_strip_def py_isspace_def build_row_def get_part_by_key_def
        new_part_def add_quantity_def add_refdes_def format_refdes_def refdes_text_def
        get_export_data_def checked_parts_def
        upt_rec [of 0] upt_rec [of 1] upt_rec [of 2])

text \<open>
  C1, as the code has it. For a part whose confirmed choice is the N/A dict and whose
  checked flag is true, the export list has the record built for it, with
  \<open>MPN = NA\<close>, \<open>Mouser Part Number = NA\<close>,
  \<open>Description = N/A - No part selected\<close>, \<open>Manufacturer = N/A\<close>, \<open>Stock = 0\<close>,
  and Package, Price, Lifecycle and Product URL blank.
\<close>

theorem na_export_row:
  assumes "(k, na_part) \<in> set (selected_parts s)"
    and "get_or (map_of (part_selected s) k) False"
  shows "build_row s k na_part \<in> set (get_export_data s) \<and>
         MPN (build_row s k na_part) = ''NA'' \<and>
         Mouser_Part_Number (build_row s k na_part) = ''NA'' \<and>
         Description (build_row s k na_part) = ''N/A - No part selected'' \<and>
         Manufacturer (build_row s k na_part) = ''N/A'' \<and>
         Stock (build_row s k na_part) = PInt 0 \<and>
         Package (build_row s k na_part) = '''' \<and>
         Price (build_row s k na_part) = PStr '''' \<and>
         Lifecycle (build_row s k na_part) = '''' \<and>
         Product_URL (build_row s k na_part) = ''''"
proof -
  from assms have "(k, na_part) \<in> set (checked_parts s)"
    by (simp add: checked_parts_def)
  then have "build_row s k na_part \<in> set (get_export_data s)"
    by (auto simp add: get_export_data_def intro!: image_eqI [where x = "(k, na_part)"])
  then show ?thesis
    by (simp add: build_row_def na_part_def get_or_def Let_def)
qed

theorem na_export_row_witness:
  "(''part_1'', na_part) \<in> set (selected_parts
      (confirm_part_selection (open_bom example_builtins two_rows [] init_session) ''part_1'' na_part)) \<and>
   get_or (map_of (part_selected
      (confirm_part_selection (open_bom example_builtins two_rows [] init_session) ''part_1'' na_part))
      ''part_1'') False \<and>
   Mouser_Part_Number (build_row
      (confirm_part_selection (open_bom example_builtins two_rows [] init_session) ''part_1'' na_part)
      ''part_1'' na_part) = ''NA''"
proof -
  let ?s = "confirm_part_selection (open_bom example_builtins two_rows [] init_session) ''part_1'' na_part"
  have a: "(''part_1'', na_part) \<in> set (selected_parts ?s)"
    by (simp add: confirm_part_selection_def open_bom_def Let_def)
  have b: "get_or (map_of (part_selected ?s) ''part_1'') False"
    by (simp add: confirm_part_selection_def update_conv' get_or_def)
  from na_export_row [OF a b] a b show ?thesis by simp
qed

text \<open>
  C1 as stated fails: after the N/A choice is confirmed for the second part, its export
  record has \<open>Mouser Part Number = NA\<close>, a description and \<open>Stock = 0\<close>, not blanks.
\<close>

theorem na_export_counterexample:
  "map_option get_export_data
     (confirm_selected_part (open_bom example_builtins two_rows [] init_session) (Some ''part_1'') (Some ''NA'')) =
   Some [\<lparr>REFDES = ''C1'', Quantity = PInt 1, Description = ''N/A - No part selected'',
          Package = '''', MPN = ''NA'', Mouser_Part_Number = ''NA'', Manufacturer = ''N/A'',
          Value = '''', Voltage = '''', Stock = PInt 0, Price = PStr '''', Lifecycle = '''',
          Product_URL = ''''\<rparr>]"
  by (simp add: confirm_selected_part_def current_part_key_def in_batch_mode_def
        selected_candidate_def na_part_def
        confirm_part_selection_def open_bom_def init_session_def
        two_rows_def Let_def init_checkboxes_def build_index_def generate_part_key_def
        str_nat.simps get_consolidated_parts_def parts_dict_of_def add_row_def group_key_def
        get_or_def py_strip_def py_isspace_def build_row_def get_part_by_key_def
        new_part_def add_quantity_def add_refdes_def format_refdes_def row_increment_def
        get_export_data_def checked_parts_def copy_columns_def fixed_keys_def
        upt_rec [of 0] upt_rec [of 1] upt_rec [of 2])

subsection \<open>Snapshot\<close>

text \<open>
  C8. When saving writes a snapshot, loading that snapshot into any session succeeds
  and gives the saved consolidated parts (same values, same order), the saved
  confirmed choices per part key and the saved checked flags per part key; the
  part-key index is rebuilt from the restored parts.
\<close>

theorem save_load_round_trip:
  assumes "save_bom_state now s = Some sd"
  shows "\<exists>s'. load_bom_state sd t = Some s' \<and>
              consolidated_parts s' = consolidated_parts s \<and>
              selected_parts s' = selected_parts s \<and>
              part_selected s' = part_selected s \<and>
              part_key_to_index s' = build_index (length (consolidated_parts s))"
proof -
  from assms have ne: "consolidated_parts s \<noteq> []"
    by (auto simp add: save_bom_state_def split: if_splits)
  with assms have sd: "sd_consolidated_parts sd = Some (consolidated_parts s)"
      "sd_selected_parts sd = Some (selected_parts s)"
      "sd_part_selected sd = Some (part_selected s)"
      "sd_column_mapping sd = Some (column_mapping s)"
      "sd_components sd = Some (components s)"
      "sd_in_stock_only sd = Some (in_stock_var s)"
      "sd_active_only sd = Some (active_only_var s)"
      "sd_sort_preference sd = Some (sort_preference s)"
      "sd_current_search_results sd = Some (current_search_results s)"
      "sd_batch_part_keys sd = Some (batch_part_keys s)"
      "sd_current_batch_index sd = Some (current_batch_index s)"
    by (auto simp add: save_bom_state_def)
  show ?thesis
    using ne by (simp add: load_bom_state_def sd populate_parts_table_def)
qed

theorem save_load_round_trip_witness:
  "save_bom_state ''2024-01-01T00:00:00''
     (confirm_part_selection (open_bom example_builtins two_rows [] init_session) ''part_1'' na_part) \<noteq> None \<and>
   (\<exists>s'. load_bom_state
      (the (save_bom_state ''2024-01-01T00:00:00''
         (confirm_part_selection (open_bom example_builtins two_rows [] init_session) ''part_1'' na_part)))
      init_session = Some s' \<and>
      selected_parts s' = [(''part_1'', na_part)])"
proof -
  let ?s = "confirm_part_selection (open_bom example_builtins two_rows [] init_session) ''part_1'' na_part"
  have ne: "consolidated_parts ?s \<noteq> []"
    by (simp add: confirm_part_selection_def open_bom_def Let_def get_consolidated_parts_def
          parts_dict_of_def two_rows_def add_row_def)
  then obtain sd where sd: "save_bom_state ''2024-01-01T00:00:00'' ?s = Some sd"
    by (simp add: save_bom_state_def)
  have sel: "selected_parts ?s = [(''part_1'', na_part)]"
    by (simp add: confirm_part_selection_def open_bom_def Let_def)
  from save_load_round_trip [OF sd, of init_session] sd sel show ?thesis
    by auto
qed

subsection \<open>Ranking\<close>

lemma calculate_score_cases:
  "calculate_score f r p tp =
     (if price_breaks p = Some [] then Inl IndexError
      else Inr (py_round2 (weighted_total f r p tp)))"
  by (simp add: calculate_score_def weighted_total_def Let_def)

lemma score_parts_ok:
  "list_all (\<lambda>p. price_breaks p \<noteq> Some []) ps \<Longrightarrow>
     score_parts f r tp ps = Inr (map (attach_score f r tp) ps)"
  by (induction ps) (simp_all add: calculate_score_cases attach_score_def)

lemma score_parts_raises:
  "\<not> list_all (\<lambda>p. price_breaks p \<noteq> Some []) ps \<Longrightarrow> score_parts f r tp ps = Inl IndexError"
proof (induction ps)
  case Nil
  then show ?case by simp
next
  case (Cons p ps)
  show ?case
  proof (cases "price_breaks p = Some []")
    case True
    then show ?thesis by (simp add: calculate_score_cases)
  next
    case False
    with Cons show ?thesis by (simp add: calculate_score_cases)
  qed
qed

lemma score_parts_Inr:
  assumes "score_parts f r tp ps = Inr scored"
  shows "list_all (\<lambda>p. price_breaks p \<noteq> Some []) ps" and "scored = map (attach_score f r tp) ps"
proof -
  show a: "list_all (\<lambda>p. price_breaks p \<noteq> Some []) ps"
  proof (rule ccontr)
    assume "\<not> list_all (\<lambda>p. price_breaks p \<noteq> Some []) ps"
    from score_parts_raises [OF this, of f r tp] assms show False by simp
  qed
  from score_parts_ok [OF a, of f r tp] assms show "scored = map (attach_score f r tp) ps"
    by simp
qed

text \<open>The sub-scores do not read the score field.\<close>

lemma sub_scores_attach:
  "score_stock (attach_score f r tp p) = score_stock p"
  "score_price f (attach_score f r tp p) = score_price f p"
  "score_lifecycle (attach_score f r tp p) = score_lifecycle p"
  "score_package_match (attach_score f r tp p) tp' = score_package_match p tp'"
  "stock (attach_score f r tp p) = stock p"
  by (simp_all add: attach_score_def score_stock_def score_price_def score_lifecycle_def
        score_package_match_def)

lemma weighted_total_attach:
  "weighted_total f r' (attach_score f r tp p) tp' = weighted_total f r' p tp'"
  by (simp add: weighted_total_def sub_scores_attach)

lemma score_attach:
  "score (attach_score f r tp p) =
     Some (py_round2 (weighted_total f r (attach_score f r tp p) tp))"
  by (simp add: weighted_total_attach) (simp add: attach_score_def)

text \<open>Rounding moves a value by at most half a hundredth.\<close>

lemma round_half_even_bounds:
  "of_int (round_half_even x) \<le> x + 1 / 2" "x - 1 / 2 \<le> of_int (round_half_even x)"
proof -
  define f where "f = \<lfloor>x\<rfloor>"
  define d where "d = x - of_int f"
  have d: "0 \<le> d" "d < 1"
    unfolding d_def f_def by linarith+
  have x: "x = of_int f + d"
    by (simp add: d_def)
  have r: "round_half_even x =
             (if d < 1 / 2 then f else if d > 1 / 2 then f + 1 else if even f then f else f + 1)"
    by (simp add: round_half_even_def Let_def f_def d_def)
  show "of_int (round_half_even x) \<le> x + 1 / 2"
    unfolding r using d by (cases "d < 1 / 2"; cases "d > 1 / 2"; cases "even f"; simp add: x)
  show "x - 1 / 2 \<le> of_int (round_half_even x)"
    unfolding r using d by (cases "d < 1 / 2"; cases "d > 1 / 2"; cases "even f"; simp add: x)
qed

lemma py_round2_bounds: "py_round2 x \<le> x + 1 / 200" "x - 1 / 200 \<le> py_round2 x"
  using round_half_even_bounds [of "x * 100"] by (simp_all add: py_round2_def field_simps)

lemma py_round2_gap:
  assumes "x + 12 \<le> y"
  shows "py_round2 x < py_round2 y"
  using py_round2_bounds(1) [of x] py_round2_bounds(2) [of y] assms by linarith

lemma score_stock_values:
  "get_or (stock p) 0 \<le> 0 \<Longrightarrow> score_stock p = 0"
  "get_or (stock p) 0 > 0 \<Longrightarrow> score_stock p \<ge> 20"
  by (simp_all add: score_stock_def Let_def)

text \<open>\<open>sorted(\<dots>, reverse=True)\<close> lists the keys in descending order.\<close>

lemma sorted_reverse_nth:
  assumes "i < j" and "j < length (sorted_reverse key xs)"
  shows "key (sorted_reverse key xs ! j) \<le> key (sorted_reverse key xs ! i)"
proof -
  let ?ys = "sort_key key (rev xs)"
  let ?n = "length ?ys"
  have n: "length (sorted_reverse key xs) = ?n"
    by (simp add: sorted_reverse_def)
  have s: "sorted (map key ?ys)" by (rule sorted_sort_key)
  from assms n have ij: "?n - Suc j \<le> ?n - Suc i" "?n - Suc i < ?n" by linarith+
  from s ij have "map key ?ys ! (?n - Suc j) \<le> map key ?ys ! (?n - Suc i)"
    by (simp add: sorted_iff_nth_mono del: length_sort)
  moreover from ij assms n have "?n - Suc j < ?n" by linarith
  ultimately have "key (?ys ! (?n - Suc j)) \<le> key (?ys ! (?n - Suc i))"
    using ij by (simp del: length_sort)
  moreover have "sorted_reverse key xs ! j = ?ys ! (?n - Suc j)"
    using assms n unfolding sorted_reverse_def by (subst rev_nth) (simp_all del: length_sort)
  moreover have "sorted_reverse key xs ! i = ?ys ! (?n - Suc i)"
    using assms n unfolding sorted_reverse_def by (subst rev_nth) (simp_all del: length_sort)
  ultimately show ?thesis by simp
qed

lemma set_sorted_reverse: "set (sorted_reverse key xs) = set xs"
  by (simp add: sorted_reverse_def)

lemma rank_parts_Inr:
  assumes "rank_parts f r ps tp = Inr out"
  shows "out = sorted_reverse (\<lambda>p. (get_or (score p) 0, get_or (stock p) 0))
                 (map (attach_score f r tp) ps)"
proof -
  from assms obtain scored where sc: "score_parts f r tp ps = Inr scored"
    by (auto simp add: rank_parts_def split: sum.splits)
  with assms score_parts_Inr(2) [OF sc] show ?thesis
    by (simp add: rank_parts_def)
qed

lemma stock_mode_Inr:
  assumes "fst (rank_parts_with_preference f r ps tp ''stock'') = Inr out"
  shows "rank_parts f (stock_ranker r) ps tp = Inr out"
  using assms
  by (simp add: rank_parts_with_preference_def stock_ranker_def Let_def split: sum.splits)

lemma weighted_total_stock_ranker:
  "weighted_total f (stock_ranker r) p tp =
     6 / 10 * score_stock p + 2 / 10 * score_price f p + 1 / 10 * score_lifecycle p +
     1 / 10 * score_package_match p tp"
  by (simp add: weighted_total_def stock_ranker_def)

lemma stock_mode_total:
  "list_all (\<lambda>p. price_breaks p \<noteq> Some []) ps \<Longrightarrow>
     \<exists>out. fst (rank_parts_with_preference f r ps tp ''stock'') = Inr out"
  by (simp add: rank_parts_with_preference_def rank_parts_def score_parts_ok Let_def)

lemma scored_element:
  assumes "q \<in> set (sorted_reverse key (map (attach_score f r tp) ps))"
  shows "score q = Some (py_round2 (weighted_total f r q tp))"
proof -
  from assms obtain p where "q = attach_score f r tp p"
    unfolding set_sorted_reverse by auto
  then show ?thesis by (simp only: score_attach)
qed

lemma stock_mode_pair:
  assumes out: "fst (rank_parts_with_preference f r ps tp ''stock'') = Inr out"
    and ij: "i < j" "j < length out"
    and eq: "score_price f (out ! i) = score_price f (out ! j)"
      "score_lifecycle (out ! i) = score_lifecycle (out ! j)"
      "score_package_match (out ! i) tp = score_package_match (out ! j) tp"
    and sj: "0 < get_or (stock (out ! j)) 0"
  shows "0 < get_or (stock (out ! i)) 0"
proof (rule ccontr)
  assume "\<not> 0 < get_or (stock (out ! i)) 0"
  then have si: "get_or (stock (out ! i)) 0 \<le> 0" by simp
  let ?key = "\<lambda>p. (get_or (score p) 0, get_or (stock p) (0::int))"
  let ?r = "stock_ranker r"
  from rank_parts_Inr [OF stock_mode_Inr [OF out]]
  have o: "out = sorted_reverse ?key (map (attach_score f ?r tp) ps)" .
  from ij have mem: "out ! i \<in> set out" "out ! j \<in> set out" by simp_all
  from mem(1) have sc_i: "score (out ! i) = Some (py_round2 (weighted_total f ?r (out ! i) tp))"
    by (subst (asm) (2) o) (rule scored_element)
  from mem(2) have sc_j: "score (out ! j) = Some (py_round2 (weighted_total f ?r (out ! j) tp))"
    by (subst (asm) (2) o) (rule scored_element)
  have "weighted_total f ?r (out ! i) tp + 12 \<le> weighted_total f ?r (out ! j) tp"
    using score_stock_values(1) [OF si] score_stock_values(2) [OF sj] eq
    by (simp add: weighted_total_stock_ranker)
  then have lt: "py_round2 (weighted_total f ?r (out ! i) tp) <
                 py_round2 (weighted_total f ?r (out ! j) tp)"
    by (rule py_round2_gap)
  have "?key (out ! j) \<le> ?key (out ! i)"
    using sorted_reverse_nth [of i j ?key "map (attach_score f ?r tp) ps"] ij o by simp
  then have "get_or (score (out ! j)) 0 \<le> get_or (score (out ! i)) 0"
    by (auto simp add: less_eq_prod_def)
  with lt show False
    by (simp add: sc_i sc_j get_or_def)
qed

text \<open>
  C6. Stock mode scores with the weights 0.6, 0.2, 0.1, 0.1 and sorts by score and
  then stock, both descending. In its output, of two candidates with equal price,
  lifecycle and package sub-scores, one without stock never stands ahead of one
  with stock. The ranking returns a list whenever no candidate has an empty list of
  price breaks.
\<close>

theorem stock_mode_in_stock_first:
  "(list_all (\<lambda>p. price_breaks p \<noteq> Some []) results \<longrightarrow>
      (\<exists>out. fst (rank_parts_with_preference to_float ranker results target_package ''stock'') =
              Inr out)) \<and>
   (\<forall>out i j.
      fst (rank_parts_with_preference to_float ranker results target_package ''stock'') = Inr out \<and>
      i < j \<and> j < length out \<and>
      score_price to_float (out ! i) = score_price to_float (out ! j) \<and>
      score_lifecycle (out ! i) = score_lifecycle (out ! j) \<and>
      score_package_match (out ! i) target_package =
        score_package_match (out ! j) target_package \<and>
      0 < get_or (stock (out ! j)) 0 \<longrightarrow>
      0 < get_or (stock (out ! i)) 0)"
proof (intro conjI impI allI)
  assume "list_all (\<lambda>p. price_breaks p \<noteq> Some []) results"
  then show "\<exists>out. fst (rank_parts_with_preference to_float ranker results target_package
                          ''stock'') = Inr out"
    by (rule stock_mode_total)
next
  fix out i j
  assume h: "fst (rank_parts_with_preference to_float ranker results target_package ''stock'') =
               Inr out \<and>
      i < j \<and> j < length out \<and>
      score_price to_float (out ! i) = score_price to_float (out ! j) \<and>
      score_lifecycle (out ! i) = score_lifecycle (out ! j) \<and>
      score_package_match (out ! i) target_package =
        score_package_match (out ! j) target_package \<and>
      0 < get_or (stock (out ! j)) 0"
  then show "0 < get_or (stock (out ! i)) 0"
    using stock_mode_pair [of to_float ranker results target_package out i j] by blast
qed

text \<open>The scenario of the specification: stock mode puts the offer with more stock first,
  price mode the cheaper one.\<close>

lemma ranking_scenario_stock: "fst (rank_parts_with_preference decimal_float app_ranker two_offers None ''stock'') =
    Inr [(priced ''A'' 5000 ''$0.02'')\<lparr>score := Some 76\<rparr>, (priced ''B'' 50 ''$0.01'')\<lparr>score := Some 54\<rparr>]"
  by code_simp

lemma ranking_scenario_price: "fst (rank_parts_with_preference decimal_float app_ranker two_offers None ''price'') =
    Inr [(priced ''B'' 50 ''$0.01'')\<lparr>score := Some 72\<rparr>, (priced ''A'' 5000 ''$0.02'')\<lparr>score := Some 79\<rparr>]"
  by code_simp

lemma parsed_breaks_simps:
  "parsed_breaks f [] = []"
  "parsed_breaks f (pb # pbs) =
     (if pyval_truthy (pb_price pb)
      then (case price_float f (pb_price pb) of
              None \<Rightarrow> parsed_breaks f pbs
            | Some pf \<Rightarrow> (pb_quantity pb, pf) # parsed_breaks f pbs)
      else parsed_breaks f pbs)"
  by (simp_all add: parsed_breaks_def List.map_filter_simps split: option.splits)

lemma scan_price_breaks_result:
  "scan_result (scan_price_breaks f pbs fp) =
     (case find (\<lambda>qp. fst qp = 1) (parsed_breaks f pbs) of
        Some qp \<Rightarrow> snd qp
      | None \<Rightarrow> (case fp of
                   Some x \<Rightarrow> x
                 | None \<Rightarrow> (case parsed_breaks f pbs of [] \<Rightarrow> PosInf | qp # rest \<Rightarrow> snd qp)))"
proof (induction pbs arbitrary: fp)
  case Nil
  then show ?case
    by (simp add: parsed_breaks_simps scan_result_def split: option.splits)
next
  case (Cons pb pbs)
  show ?case
  proof (cases "pyval_truthy (pb_price pb) \<and> price_float f (pb_price pb) \<noteq> None")
    case False
    then have e: "parsed_breaks f (pb # pbs) = parsed_breaks f pbs"
      by (auto simp add: parsed_breaks_simps)
    from False have s: "scan_price_breaks f (pb # pbs) fp = scan_price_breaks f pbs fp"
      by auto
    show ?thesis unfolding e s by (rule Cons.IH)
  next
    case True
    then obtain pf where pf: "price_float f (pb_price pb) = Some pf" by auto
    with True have e: "parsed_breaks f (pb # pbs) = (pb_quantity pb, pf) # parsed_breaks f pbs"
      by (simp add: parsed_breaks_simps)
    show ?thesis
    proof (cases "pb_quantity pb = 1")
      case q1: True
      with True pf have s: "scan_price_breaks f (pb # pbs) fp =
          (Some pf, case fp of None \<Rightarrow> Some pf | Some x \<Rightarrow> Some x)"
        by simp
      show ?thesis unfolding e s using q1 by (simp add: scan_result_def)
    next
      case q: False
      with True pf have s: "scan_price_breaks f (pb # pbs) fp =
          scan_price_breaks f pbs (case fp of None \<Rightarrow> Some pf | Some x \<Rightarrow> Some x)"
        by simp
      show ?thesis
        unfolding e s Cons.IH using q by (cases fp) (simp_all split: option.splits)
    qed
  qed
qed

lemma extract_price_claimed: "extract_price f p = claimed_unit_price f p"
proof (cases "get_or (price_breaks p) [] = []")
  case True
  then show ?thesis
    by (simp add: extract_price_def claimed_unit_price_def parsed_breaks_simps)
next
  case False
  have "extract_price f p = scan_result (scan_price_breaks f (get_or (price_breaks p) []) None)"
    using False by (simp add: extract_price_def scan_result_def)
  also have "\<dots> = claimed_unit_price f p"
    unfolding scan_price_breaks_result claimed_unit_price_def Let_def
    by (simp split: option.splits)
  finally show ?thesis .
qed

lemma extract_price_attach: "extract_price f (attach_score f' r tp p) = extract_price f p"
  by (simp add: extract_price_def attach_score_def)

lemma attach_score_idem:
  "attach_score f r tp (attach_score f r tp p) = attach_score f r tp p"
  using weighted_total_attach [of f r r tp p tp, unfolded attach_score_def]
  by (simp add: attach_score_def)

lemma price_breaks_attach: "price_breaks (attach_score f r tp p) = price_breaks p"
  by (simp add: attach_score_def)

text \<open>
  Price mode, whenever the scoring does not raise: the output is the scored
  candidates in ascending order of unit price and, among equal prices, descending
  stock; ranking the output again returns it unchanged.
\<close>

lemma price_mode_order:
  assumes "fst (rank_parts_with_preference f r results tp ''price'') = Inr out"
  shows "sorted (map (\<lambda>p. (claimed_unit_price f p, - get_or (stock p) 0)) out)"
    and "mset out = mset (map (attach_score f r tp) results)"
    and "fst (rank_parts_with_preference f r out tp ''price'') = Inr out"
proof -
  let ?key = "\<lambda>p. (extract_price f p, - get_or (stock p) 0)"
  from assms obtain scored where sc: "score_parts f r tp results = Inr scored"
    and out: "out = sort_key ?key scored"
    by (auto simp add: rank_parts_with_preference_def split: sum.splits)
  note ok = score_parts_Inr [OF sc]
  have key: "?key = (\<lambda>p. (claimed_unit_price f p, - get_or (stock p) 0))"
    by (simp add: extract_price_claimed)
  have "sorted (map ?key out)"
    unfolding out by (rule sorted_sort_key)
  then show "sorted (map (\<lambda>p. (claimed_unit_price f p, - get_or (stock p) 0)) out)"
    by (simp only: key)
  show m: "mset out = mset (map (attach_score f r tp) results)"
    by (simp add: out ok(2))
  have set_out: "set out = attach_score f r tp ` set results"
    using m by (metis mset_eq_setD set_map)
  have "list_all (\<lambda>p. price_breaks p \<noteq> Some []) out"
    using ok(1) by (auto simp add: list_all_iff set_out price_breaks_attach)
  then have "score_parts f r tp out = Inr (map (attach_score f r tp) out)"
    by (rule score_parts_ok)
  moreover have "map (attach_score f r tp) out = out"
    by (rule map_idI) (auto simp add: set_out attach_score_idem)
  moreover have "sort_key ?key out = out"
    unfolding out by (rule sort_key_id_if_sorted) (rule sorted_sort_key)
  ultimately show "fst (rank_parts_with_preference f r out tp ''price'') = Inr out"
    by (simp add: rank_parts_with_preference_def)
qed

theorem stock_mode_in_stock_first_witness:
  "list_all (\<lambda>p. price_breaks p \<noteq> Some []) same_price_offers \<and>
   fst (rank_parts_with_preference decimal_float app_ranker same_price_offers None ''stock'') =
     Inr [(priced ''A'' 5000 ''$0.02'')\<lparr>score := Some 76\<rparr>,
          (priced ''Z'' 5 ''$0.02'')\<lparr>score := Some 40\<rparr>] \<and>
   0 < get_or (stock ([(priced ''A'' 5000 ''$0.02'')\<lparr>score := Some 76\<rparr>,
                       (priced ''Z'' 5 ''$0.02'')\<lparr>score := Some 40\<rparr>] ! 0)) 0"
proof -
  let ?out = "[(priced ''A'' 5000 ''$0.02'')\<lparr>score := Some 76\<rparr>,
               (priced ''Z'' 5 ''$0.02'')\<lparr>score := Some 40\<rparr>]"
  have la: "list_all (\<lambda>p. price_breaks p \<noteq> Some []) same_price_offers"
    by (simp add: same_price_offers_def priced_def)
  have ev: "fst (rank_parts_with_preference decimal_float app_ranker same_price_offers None
                   ''stock'') = Inr ?out"
    by code_simp
  have eq: "score_price decimal_float (?out ! 0) = score_price decimal_float (?out ! 1)"
      "score_lifecycle (?out ! 0) = score_lifecycle (?out ! 1)"
      "score_package_match (?out ! 0) None = score_package_match (?out ! 1) None"
      "0 < get_or (stock (?out ! 1)) 0"
    by (simp_all add: score_price_def score_lifecycle_def score_package_match_def priced_def
          get_or_def)
  note th = stock_mode_in_stock_first [of same_price_offers decimal_float app_ranker None]
  from th [THEN conjunct2, rule_format, of ?out 0 1] ev eq
  have "0 < get_or (stock (?out ! 0)) 0" by simp
  with la ev show ?thesis by simp
qed

text \<open>
  Scoring reads the first price break for its debug message, so ranking, in either
  mode, raises for a candidate list that holds a candidate with an empty list of
  price breaks.
\<close>

lemma ranking_raises_on_empty_price_breaks:
  assumes "\<not> list_all (\<lambda>p. price_breaks p \<noteq> Some []) results"
  shows "fst (rank_parts_with_preference f r results tp sort_by) = Inl IndexError"
  using score_parts_raises [OF assms]
  by (simp add: rank_parts_with_preference_def rank_parts_def Let_def)

text \<open>
  C5 fails on the code: a vendor part without price breaks (\<open>price_breaks\<close> is the
  empty list, as \<open>_normalize_results\<close> builds it) is to be ranked at price infinity,
  but price mode raises \<open>IndexError\<close> while scoring it.
\<close>

theorem price_mode_raises_without_price_breaks:
  "fst (rank_parts_with_preference decimal_float app_ranker [no_price_breaks] None ''price'') =
     Inl IndexError \<and>
   extract_price decimal_float no_price_breaks = PosInf"
  by (simp add: rank_parts_with_preference_def calculate_score_def no_price_breaks_def
        extract_price_def get_or_def)

end
